theory Spec2Isabelle
  imports Main
begin

section \<open>Session store (core/session.py)\<close>

text \<open>
  Times are integers (microseconds, the resolution of \<^verbatim>\<open>datetime\<close>); the
  time-to-live is the \<^verbatim>\<open>timedelta\<close> in the same unit. A session is the
  dictionary the store creates in \<^verbatim>\<open>ensure\<close>; \<^verbatim>\<open>updated_at\<close> is optional
  because the sweep reads it with \<^verbatim>\<open>data.get("updated_at", now)\<close>. The store is
  the dictionary \<^verbatim>\<open>_sessions\<close> together with \<^verbatim>\<open>_ttl\<close>; the lock is
  not modelled (every operation runs inside it).
\<close>

record session =
  created_at :: int
  updated_at :: "int option"
  transcript :: string
  retrieval_chunks :: "string list"
  chat_history :: "(string \<times> string) list"

record session_store =
  ttl :: int
  sessions :: "string \<rightharpoonup> session"

definition expired :: "int \<Rightarrow> int \<Rightarrow> session \<Rightarrow> bool" where
  "expired now t d \<longleftrightarrow> now - (case updated_at d of None \<Rightarrow> now | Some u \<Rightarrow> u) > t"

definition cleanup_expired_locked :: "int \<Rightarrow> session_store \<Rightarrow> session_store" where
  "cleanup_expired_locked now st =
     st\<lparr>sessions := (\<lambda>sid. case sessions st sid of
                                None \<Rightarrow> None
                              | Some d \<Rightarrow> if expired now (ttl st) d then None else Some d)\<rparr>"

text \<open>
  \<^verbatim>\<open>get\<close> reads the clock twice: \<open>now\<close> in the sweep and \<open>now'\<close> when it
  refreshes \<^verbatim>\<open>updated_at\<close>. It returns the session (or \<open>None\<close>) and the store
  as it leaves it.
\<close>

definition SessionStore_get ::
  "int \<Rightarrow> int \<Rightarrow> string \<Rightarrow> session_store \<Rightarrow> session option \<times> session_store" where
  "SessionStore_get now now' sid st =
     (let st1 = cleanup_expired_locked now st in
      case sessions st1 sid of
        None \<Rightarrow> (None, st1)
      | Some d \<Rightarrow>
          (let d' = d\<lparr>updated_at := Some now'\<rparr>
           in (Some d', st1\<lparr>sessions := (sessions st1)(sid \<mapsto> d')\<rparr>)))"

definition demo_session :: "int \<Rightarrow> session" where
  "demo_session u = \<lparr>created_at = u, updated_at = Some u, transcript = ''t'',
                     retrieval_chunks = [], chat_history = []\<rparr>"

definition demo_store :: session_store where
  "demo_store = \<lparr>ttl = 240 * 60000000,
                  sessions = [''old'' \<mapsto> demo_session 0, ''new'' \<mapsto> demo_session 14400000000]\<rparr>"


section \<open>Fallback orchestrator (api/routes.py)\<close>

text \<open>
  What a call raises: an \<^verbatim>\<open>HTTPException\<close> with its status code and detail, or
  any other subclass of \<^verbatim>\<open>Exception\<close>. A callable runs on a state (whatever
  the three tiers touch) and returns its value or the exception it raised, with the state
  it leaves. The log lines are not modelled.
\<close>

datatype exn = HTTPException (status_code: int) (detail: string) | Exception string

type_synonym ('s, 'a) callable = "'s \<Rightarrow> (exn + 'a) \<times> 's"

definition is_recoverable_http_error :: "int \<Rightarrow> bool" where
  "is_recoverable_http_error code \<longleftrightarrow> code \<in> {401, 403, 429, 500, 502, 503, 504}"

definition run_secondary_then_local ::
  "('s, 'a) callable \<Rightarrow> ('s, 'a) callable \<Rightarrow> ('s, 'a) callable" where
  "run_secondary_then_local ollama_call local_call s =
     (case ollama_call s of
        (Inr v, s') \<Rightarrow> (Inr v, s')
      | (Inl e, s') \<Rightarrow> local_call s')"

definition run_with_fallback_chain ::
  "('s, 'a) callable \<Rightarrow> ('s, 'a) callable \<Rightarrow> ('s, 'a) callable \<Rightarrow> ('s, 'a) callable" where
  "run_with_fallback_chain gemini_call ollama_call local_call s =
     (case gemini_call s of
        (Inr v, s') \<Rightarrow> (Inr v, s')
      | (Inl (HTTPException code d), s') \<Rightarrow>
          if is_recoverable_http_error code
          then run_secondary_then_local ollama_call local_call s'
          else (Inl (HTTPException code d), s')
      | (Inl (Exception m), s') \<Rightarrow> run_secondary_then_local ollama_call local_call s')"

text \<open>
  Counting invocations: a callable wrapped by \<open>counted t\<close> bumps the counter of tier
  \<open>t\<close> each time it is run. The counters ride along in the state.
\<close>

datatype tier = Primary | Secondary | Tertiary

definition counted ::
  "tier \<Rightarrow> ('s, 'a) callable \<Rightarrow> ('s \<times> (tier \<Rightarrow> nat), 'a) callable" where
  "counted t f = (\<lambda>(s, n). case f s of (r, s') \<Rightarrow> (r, (s', n(t := Suc (n t)))))"

definition falls_back :: "exn \<Rightarrow> bool" where
  "falls_back e \<longleftrightarrow> (case e of HTTPException code d \<Rightarrow> is_recoverable_http_error code
                                | Exception m \<Rightarrow> True)"

definition raising :: "exn \<Rightarrow> (nat, string) callable" where
  "raising e = (\<lambda>s. (Inl e, Suc s))"

definition returning :: "string \<Rightarrow> (nat, string) callable" where
  "returning v = (\<lambda>s. (Inr v, Suc s))"


section \<open>Text primitives (Python \<^verbatim>\<open>str\<close> and \<^verbatim>\<open>re\<close>)\<close>

text \<open>
  A string is a list of characters. The text handled here is ASCII: on code points below
  128 the classes below are Python's \<^verbatim>\<open>\s\<close> (which is also what
  \<^verbatim>\<open>str.strip()\<close> removes), \<^verbatim>\<open>\d\<close>, \<^verbatim>\<open>[A-Z]\<close>,
  \<^verbatim>\<open>[A-Za-z]\<close> and \<^verbatim>\<open>\w\<close>; a character from 128 up belongs to none of
  them and is its own lower case.
\<close>

definition is_space :: "char \<Rightarrow> bool" where
  "is_space c \<longleftrightarrow> c \<in> set [CHR 0x09, CHR 0x0A, CHR 0x0B, CHR 0x0C, CHR 0x0D,
                              CHR 0x1C, CHR 0x1D, CHR 0x1E, CHR 0x1F, CHR '' '']"

definition is_digit :: "char \<Rightarrow> bool" where
  "is_digit c \<longleftrightarrow> c \<in> set ''0123456789''"

definition is_upper :: "char \<Rightarrow> bool" where
  "is_upper c \<longleftrightarrow> c \<in> set ''ABCDEFGHIJKLMNOPQRSTUVWXYZ''"

definition is_lower :: "char \<Rightarrow> bool" where
  "is_lower c \<longleftrightarrow> c \<in> set ''abcdefghijklmnopqrstuvwxyz''"

definition is_alpha :: "char \<Rightarrow> bool" where
  "is_alpha c \<longleftrightarrow> is_upper c \<or> is_lower c"

definition is_word :: "char \<Rightarrow> bool" where
  "is_word c \<longleftrightarrow> is_alpha c \<or> is_digit c \<or> c = CHR ''_''"

definition char_lower :: "char \<Rightarrow> char" where
  "char_lower c =
     (case map_of (zip ''ABCDEFGHIJKLMNOPQRSTUVWXYZ'' ''abcdefghijklmnopqrstuvwxyz'') c of
        Some l \<Rightarrow> l
      | None \<Rightarrow> c)"

definition str_lower :: "string \<Rightarrow> string" where
  "str_lower s = map char_lower s"

definition lstrip :: "string \<Rightarrow> string" where
  "lstrip s = dropWhile is_space s"

definition rstrip :: "string \<Rightarrow> string" where
  "rstrip s = rev (dropWhile is_space (rev s))"

definition strip :: "string \<Rightarrow> string" where
  "strip s = lstrip (rstrip s)"

text \<open>
  \<^verbatim>\<open>re.sub(r"\s+", " ", s)\<close>: every maximal run of whitespace becomes one space.
  The flag says whether the previous character belonged to a run.
\<close>

fun sub_ws_runs :: "bool \<Rightarrow> string \<Rightarrow> string" where
  "sub_ws_runs in_run [] = []"
| "sub_ws_runs in_run (c # cs) =
     (if is_space c
      then (if in_run then sub_ws_runs True cs else CHR '' '' # sub_ws_runs True cs)
      else c # sub_ws_runs False cs)"

definition collapse_ws :: "string \<Rightarrow> string" where
  "collapse_ws s = sub_ws_runs False s"

text \<open>The idiom \<^verbatim>\<open>re.sub(r"\s+", " ", s).strip()\<close>.\<close>

definition normalize_ws :: "string \<Rightarrow> string" where
  "normalize_ws s = strip (collapse_ws s)"

text \<open>
  Python slices with an integer bound: \<^verbatim>\<open>xs[:k]\<close> and \<^verbatim>\<open>xs[k:]\<close>. A
  negative bound counts from the end, and a bound beyond either end is clamped.
\<close>

definition py_slice_to :: "'a list \<Rightarrow> int \<Rightarrow> 'a list" where
  "py_slice_to xs k = (if 0 \<le> k then take (nat k) xs else take (length xs - nat (- k)) xs)"

definition py_slice_from :: "'a list \<Rightarrow> int \<Rightarrow> 'a list" where
  "py_slice_from xs k = (if 0 \<le> k then drop (nat k) xs else drop (length xs - nat (- k)) xs)"

text \<open>
  \<^verbatim>\<open>re.sub(pattern, repl, s)\<close> for a pattern that never matches the empty string.
  The matcher \<open>m prev rest\<close> is asked at each position, with the character before the
  position (for \<^verbatim>\<open>\b\<close> and \<^verbatim>\<open>^\<close>) and the text from the position on; it
  answers with the length of the match that Python's backtracking finds first there. The
  scan goes left to right and resumes after each match; the counter is the number of
  matched characters still to skip.
\<close>

fun re_sub :: "(char option \<Rightarrow> string \<Rightarrow> nat option) \<Rightarrow> string \<Rightarrow> nat \<Rightarrow> char option \<Rightarrow> string \<Rightarrow> string"
  where
  "re_sub m repl k prev [] = []"
| "re_sub m repl (Suc k) prev (c # cs) = re_sub m repl k (Some c) cs"
| "re_sub m repl 0 prev (c # cs) =
     (case m prev (c # cs) of
        Some n \<Rightarrow> repl @ re_sub m repl (n - 1) (Some c) cs
      | None \<Rightarrow> c # re_sub m repl 0 (Some c) cs)"


section \<open>Transcript cleaning (services/pipeline\_utils.py)\<close>

text \<open>
  \<^verbatim>\<open>\b\d{1,2}:\d{2}(?::\d{2})?\b\<close>. The match starts with a digit, so the opening
  \<^verbatim>\<open>\b\<close> asks that no word character precedes; it ends with a digit, so the
  closing \<^verbatim>\<open>\b\<close> asks that no word character follows. The alternatives are
  tried in the engine's order: two leading digits before one, the seconds group before
  its absence.
\<close>

definition word_follows :: "string \<Rightarrow> bool" where
  "word_follows s = (case s of [] \<Rightarrow> False | c # _ \<Rightarrow> is_word c)"

fun timestamp_tail :: "string \<Rightarrow> nat option" where
  "timestamp_tail (c # a # b # rest) =
     (if c = CHR '':'' \<and> is_digit a \<and> is_digit b
      then (case rest of
              c' # e # f # rest' \<Rightarrow>
                if c' = CHR '':'' \<and> is_digit e \<and> is_digit f \<and> \<not> word_follows rest' then Some 6
                else if \<not> word_follows rest then Some 3 else None
            | _ \<Rightarrow> if \<not> word_follows rest then Some 3 else None)
      else None)"
| "timestamp_tail _ = None"

definition timestamp_len :: "char option \<Rightarrow> string \<Rightarrow> nat option" where
  "timestamp_len prev s =
     (if (case prev of None \<Rightarrow> False | Some p \<Rightarrow> is_word p) then None
      else case s of
             [] \<Rightarrow> None
           | d1 # t1 \<Rightarrow>
               if \<not> is_digit d1 then None
               else (case (case t1 of
                             d2 # t2 \<Rightarrow> if is_digit d2 then map_option (\<lambda>n. n + 2) (timestamp_tail t2)
                                        else None
                           | [] \<Rightarrow> None) of
                       Some n \<Rightarrow> Some n
                     | None \<Rightarrow> map_option (\<lambda>n. n + 1) (timestamp_tail t1)))"

text \<open>
  \<^verbatim>\<open>\[[^\]]{1,40}\]\<close> and \<^verbatim>\<open>\([^\)]{1,40}\)\<close>. After the opening
  character the class takes the run of characters other than the closing one; the match
  needs that run to have 1 to 40 characters and the closing character right after it
  (giving characters back never helps: what follows a shorter run is not the closing
  character).
\<close>

definition aside_len :: "char \<Rightarrow> char \<Rightarrow> char option \<Rightarrow> string \<Rightarrow> nat option" where
  "aside_len opening closing prev s =
     (case s of
        [] \<Rightarrow> None
      | c # rest \<Rightarrow>
          if c \<noteq> opening then None
          else (let run = takeWhile (\<lambda>d. d \<noteq> closing) rest;
                    after = dropWhile (\<lambda>d. d \<noteq> closing) rest
                in if 1 \<le> length run \<and> length run \<le> 40 \<and> after \<noteq> []
                   then Some (length run + 2) else None))"

text \<open>
  \<^verbatim>\<open>(?m)^[A-Z][A-Z\s]{2,20}:\s*\<close>. A line starts at the beginning of the text and
  after every newline. The class takes the run of capitals and whitespace; the match needs
  2 to 20 of them and a colon right after, and then swallows all the whitespace that
  follows.
\<close>

definition speaker_label_len :: "char option \<Rightarrow> string \<Rightarrow> nat option" where
  "speaker_label_len prev s =
     (if prev \<noteq> None \<and> prev \<noteq> Some (CHR 0x0A) then None
      else case s of
             [] \<Rightarrow> None
           | c # rest \<Rightarrow>
               if \<not> is_upper c then None
               else (let run = takeWhile (\<lambda>d. is_upper d \<or> is_space d) rest;
                         after = dropWhile (\<lambda>d. is_upper d \<or> is_space d) rest
                     in if 2 \<le> length run \<and> length run \<le> 20 \<and> after \<noteq> [] \<and> hd after = CHR '':''
                        then Some (1 + length run + 1 + length (takeWhile is_space (tl after)))
                        else None))"

definition truncation_marker :: string where
  "truncation_marker = '' [Transcript truncated]''"

text \<open>The five substitutions, applied to the stripped text.\<close>

definition clean_passes :: "string \<Rightarrow> string" where
  "clean_passes v0 =
     (let v1 = re_sub timestamp_len '' '' 0 None v0;
          v2 = re_sub (aside_len (CHR ''['') (CHR '']'')) '' '' 0 None v1;
          v3 = re_sub (aside_len (CHR ''('') (CHR '')'')) '' '' 0 None v2;
          v4 = re_sub speaker_label_len [] 0 None v3
      in normalize_ws v4)"

definition clean_transcript_text :: "string \<Rightarrow> int \<Rightarrow> string" where
  "clean_transcript_text text max_chars =
     (let v0 = strip text in
      if v0 = [] then []
      else
        let v = clean_passes v0
        in if int (length v) > max_chars
           then py_slice_to v max_chars @ truncation_marker
           else v)"

text \<open>Two whitespace characters in a row somewhere in the text.\<close>

fun adjacent_ws :: "string \<Rightarrow> bool" where
  "adjacent_ws (a # b # cs) = ((is_space a \<and> is_space b) \<or> adjacent_ws (b # cs))"
| "adjacent_ws _ = False"

text \<open>
  \<^verbatim>\<open>re.split(r"\n{2,}", s)\<close>: the text is cut at every maximal run of two or
  more newlines. The first argument collects the current piece, reversed.
\<close>

function split_blank_lines_acc :: "string \<Rightarrow> string \<Rightarrow> string list" where
  "split_blank_lines_acc acc [] = [rev acc]"
| "split_blank_lines_acc acc (c # cs) =
     (if c = CHR 0x0A \<and> cs \<noteq> [] \<and> hd cs = CHR 0x0A
      then rev acc # split_blank_lines_acc [] (dropWhile (\<lambda>d. d = CHR 0x0A) cs)
      else split_blank_lines_acc (c # acc) cs)"
  by pat_completeness auto
termination
  by (relation "measure (\<lambda>(acc, s). length s)")
     (auto simp: le_imp_less_Suc length_dropWhile_le)

definition split_blank_lines :: "string \<Rightarrow> string list" where
  "split_blank_lines s = split_blank_lines_acc [] s"

definition timestamped_transcript :: string where
  "timestamped_transcript =
     ''[Music] 00:12 Welcome   to the course (applause)\<newline>\<newline>next 1:02:03 topic''"

definition long_transcript :: "nat \<Rightarrow> string" where
  "long_transcript n = replicate n (CHR ''a'') @ '' b''"

section \<open>Sentences, tokens and de-duplication (services/pipeline\_utils.py)\<close>

text \<open>
  \<^verbatim>\<open>re.split(r"(?<=[.!?])\s+|\n+", text)\<close>. At a whitespace character that follows
  one of \<^verbatim>\<open>. ! ?\<close> the first alternative takes the whole whitespace run; otherwise
  at a newline the second alternative takes the run of newlines. The arguments are the
  character before the position, the current piece (reversed) and the rest of the text.
\<close>

function split_sentence_breaks :: "char option \<Rightarrow> string \<Rightarrow> string \<Rightarrow> string list" where
  "split_sentence_breaks prev acc [] = [rev acc]"
| "split_sentence_breaks prev acc (c # cs) =
     (if is_space c \<and> prev \<in> {Some (CHR ''.''), Some (CHR ''!''), Some (CHR ''?'')}
      then rev acc # split_sentence_breaks (Some (last (c # takeWhile is_space cs))) []
                       (dropWhile is_space cs)
      else if c = CHR 0x0A
      then rev acc # split_sentence_breaks (Some (CHR 0x0A)) [] (dropWhile (\<lambda>d. d = CHR 0x0A) cs)
      else split_sentence_breaks (Some c) (c # acc) cs)"
  by pat_completeness auto
termination
  by (relation "measure (\<lambda>(prev, acc, s). length s)")
     (auto simp: le_imp_less_Suc length_dropWhile_le)

definition split_sentences :: "string \<Rightarrow> string list" where
  "split_sentences text =
     filter (\<lambda>item. \<not> length item < 18) (map normalize_ws (split_sentence_breaks None [] text))"

text \<open>
  \<^verbatim>\<open>re.findall(r"[A-Za-z][A-Za-z0-9'-]{2,}", text.lower())\<close>: a token starts at a
  letter and takes the whole run of letters, digits, apostrophes and hyphens after it; it
  counts when that run has at least two characters.
\<close>

definition is_token_char :: "char \<Rightarrow> bool" where
  "is_token_char c \<longleftrightarrow> is_alpha c \<or> is_digit c \<or> c = CHR 0x27 \<or> c = CHR ''-''"

function find_tokens :: "string \<Rightarrow> string list" where
  "find_tokens [] = []"
| "find_tokens (c # cs) =
     (if is_alpha c \<and> 2 \<le> length (takeWhile is_token_char cs)
      then (c # takeWhile is_token_char cs) # find_tokens (dropWhile is_token_char cs)
      else find_tokens cs)"
  by pat_completeness auto
termination
  by (relation "measure length") (auto simp: le_imp_less_Suc length_dropWhile_le)

definition tokenize_words :: "string \<Rightarrow> string list" where
  "tokenize_words text = find_tokens (str_lower text)"

definition STOPWORDS :: "string list" where
  "STOPWORDS =
   [''a'', ''an'', ''and'', ''are'', ''as'', ''at'', ''be'', ''been'', ''being'', ''by'',
    ''for'', ''from'', ''has'', ''have'', ''in'', ''into'', ''is'', ''it'', ''its'',
    ''of'', ''on'', ''or'', ''that'', ''the'', ''their'', ''there'', ''this'', ''to'',
    ''was'', ''were'', ''with'', ''you'', ''your'', ''we'', ''they'', ''them'', ''our'',
    ''can'', ''could'', ''would'', ''should'', ''may'', ''might'', ''not'', ''than'',
    ''then'', ''also'', ''about'', ''such'', ''using'', ''used'', ''use'', ''what'',
    ''when'', ''where'', ''which'', ''who'', ''why'', ''how'', ''if'', ''while'',
    ''during'', ''before'', ''after'', ''over'', ''under'']"

definition content_tokens :: "string \<Rightarrow> string list" where
  "content_tokens text = filter (\<lambda>token. token \<notin> set STOPWORDS) (tokenize_words text)"

text \<open>
  \<open>dedupe_strings\<close>: the first argument is the set \<^verbatim>\<open>seen\<close> of lower-cased keys
  met so far.
\<close>

fun dedupe_seen :: "string list \<Rightarrow> string list \<Rightarrow> string list" where
  "dedupe_seen seen [] = []"
| "dedupe_seen seen (item # items) =
     (let v = normalize_ws item in
      if v = [] then dedupe_seen seen items
      else if str_lower v \<in> set seen then dedupe_seen seen items
      else v # dedupe_seen (str_lower v # seen) items)"

definition dedupe_strings :: "string list \<Rightarrow> string list" where
  "dedupe_strings items = dedupe_seen [] items"

text \<open>
  \<^verbatim>\<open>s.rsplit(" ", 1)[0]\<close>: what stands before the last space, or all of \<open>s\<close>
  when it has no space.
\<close>

definition before_last_space :: "string \<Rightarrow> string" where
  "before_last_space s =
     (if CHR '' '' \<in> set s then rev (tl (dropWhile (\<lambda>c. c \<noteq> CHR '' '') (rev s))) else s)"

text \<open>
  \<^verbatim>\<open>_shorten\<close> (the same body in pipeline\_utils.py and local\_ai\_service.py; the
  bound is always passed).
\<close>

definition shorten :: "string \<Rightarrow> int \<Rightarrow> string" where
  "shorten text max_chars =
     (let v = normalize_ws text in
      if int (length v) \<le> max_chars then v
      else before_last_space (py_slice_to v max_chars) @ ''...'')"


section \<open>Chunking (services/pipeline\_utils.py)\<close>

text \<open>
  The loop of \<open>split_into_chunks\<close> over the paragraphs, with the list of chunks and
  the buffer \<^verbatim>\<open>current\<close> as its state. A \<^verbatim>\<open>break\<close> returns the state as it
  is; the step after the loop is the same on both exits.
\<close>

fun chunk_loop :: "int \<Rightarrow> int \<Rightarrow> int \<Rightarrow> string list \<Rightarrow> string list \<Rightarrow> string \<Rightarrow> string list \<times> string"
  where
  "chunk_loop max_chars overlap_chars max_chunks [] chunks current = (chunks, current)"
| "chunk_loop max_chars overlap_chars max_chunks (part # rest) chunks current =
     (let candidate = (if current \<noteq> [] then strip (current @ [CHR 0x0A] @ part) else part) in
      if int (length candidate) \<le> max_chars
      then chunk_loop max_chars overlap_chars max_chunks rest chunks candidate
      else if current \<noteq> [] then
        (let chunks' = chunks @ [strip current] in
         if int (length chunks') \<ge> max_chunks then (chunks', current)
         else
           (let overlap = (if overlap_chars > 0 then py_slice_from current (- overlap_chars) else [])
            in chunk_loop max_chars overlap_chars max_chunks rest chunks'
                 (strip (overlap @ [CHR 0x0A] @ part))))
      else
        (let chunks' = chunks @ [strip (py_slice_to part max_chars)] in
         if int (length chunks') \<ge> max_chunks then (chunks', current)
         else chunk_loop max_chars overlap_chars max_chunks rest chunks'
                (strip (py_slice_from part (max_chars - overlap_chars)))))"

definition paragraphs_of :: "string \<Rightarrow> string list" where
  "paragraphs_of cleaned =
     (let paragraphs = map strip (filter (\<lambda>part. strip part \<noteq> []) (split_blank_lines cleaned))
      in if paragraphs = [] then split_sentences cleaned else paragraphs)"

definition split_into_chunks :: "string \<Rightarrow> int \<Rightarrow> int \<Rightarrow> int \<Rightarrow> string list" where
  "split_into_chunks text max_chars overlap_chars max_chunks =
     (let cleaned = clean_transcript_text text 120000 in
      if cleaned = [] then []
      else
        (case chunk_loop max_chars overlap_chars max_chunks (paragraphs_of cleaned) [] [] of
           (chunks, current) \<Rightarrow>
             filter (\<lambda>chunk. chunk \<noteq> [])
               (if current \<noteq> [] \<and> int (length chunks) < max_chunks
                then chunks @ [strip current] else chunks)))"



section \<open>Lexical retrieval (services/pipeline\_utils.py)\<close>

text \<open>
  The score of a chunk is
  \<^verbatim>\<open>lexical_score - 0.00015 * max(0, len(chunk) - 1100)\<close>, computed in binary
  floating point: the literal is the double \<open>5534023222112865 / 2 ^ 65\<close>, the two
  integers are converted to doubles, and the product and the difference are each rounded to
  the nearest double, ties to even. Every value that occurs is a multiple of \<open>2 ^ - 65\<close>
  (the penalty is 0 or at least the literal), so a double is kept here as the integer
  number of these units, and \<open>float_round\<close> rounds such a number to 53 significant bits.
  Neither overflow nor underflow can occur for the length of a string.
\<close>

function bit_len :: "int \<Rightarrow> nat" where
  "bit_len n = (if n \<le> 0 then 0 else Suc (bit_len (n div 2)))"
  by pat_completeness auto

termination
  by (relation "measure nat") auto

declare bit_len.simps [simp del]

definition float_round :: "int \<Rightarrow> int" where
  "float_round k =
     (let a = \<bar>k\<bar>; bits = bit_len a in
      if bits \<le> 53 then k
      else
        (let sh = bits - 53; q = a div 2 ^ sh; r = a mod 2 ^ sh; half = 2 ^ (sh - 1);
             q' = (if r > half \<or> (r = half \<and> odd q) then q + 1 else q)
         in sgn k * (q' * 2 ^ sh)))"

definition lexical_score :: "string list \<Rightarrow> string list \<Rightarrow> nat" where
  "lexical_score query_tokens chunk_tokens =
     sum_list (map (\<lambda>token. min (count_list query_tokens token) (count_list chunk_tokens token))
                   (filter (\<lambda>token. token \<in> set chunk_tokens) (remdups query_tokens)))"

definition length_penalty :: "nat \<Rightarrow> int" where
  "length_penalty len = float_round (5534023222112865 * float_round (max 0 (int len - 1100)))"

definition float_score :: "nat \<Rightarrow> nat \<Rightarrow> int" where
  "float_score lexical len = float_round (float_round (2 ^ 65 * int lexical) - length_penalty len)"

definition chunk_score :: "string list \<Rightarrow> string \<Rightarrow> int" where
  "chunk_score query_tokens chunk =
     float_score (lexical_score query_tokens (content_tokens chunk)) (length chunk)"

text \<open>
  The ranking loop for a scoring function (in the units above): a chunk enters
  \<^verbatim>\<open>ranked\<close> when it has a content token and a positive score. \<^verbatim>\<open>sort(key=..., reverse=True)\<close> is stable,
  as is the insertion sort \<open>sort_key\<close> on the negated score.
\<close>

definition rank_chunks :: "(string \<Rightarrow> int) \<Rightarrow> string list \<Rightarrow> (int \<times> string) list" where
  "rank_chunks score chunks =
     map (\<lambda>chunk. (score chunk, chunk))
       (filter (\<lambda>chunk. content_tokens chunk \<noteq> [] \<and> score chunk > 0) chunks)"

definition select_top_by :: "(string \<Rightarrow> int) \<Rightarrow> string \<Rightarrow> string list \<Rightarrow> int \<Rightarrow> string list" where
  "select_top_by score query chunks top_k =
     (if chunks = [] then []
      else if content_tokens query = [] then py_slice_to chunks top_k
      else
        (let ranked = rank_chunks score chunks in
         if ranked = [] then py_slice_to chunks top_k
         else map snd (py_slice_to (sort_key (\<lambda>item. - fst item) ranked) top_k)))"

definition select_top_chunks_for_query :: "string \<Rightarrow> string list \<Rightarrow> int \<Rightarrow> string list" where
  "select_top_chunks_for_query query chunks top_k =
     select_top_by (chunk_score (content_tokens query)) query chunks top_k"

definition demo_chunks :: "string list" where
  "demo_chunks = [''cooking pasta recipes'', ''neural networks learn weights'',
                  ''networks of roads'', ''the a'']"

section \<open>Summary validation (services/pipeline\_utils.py)\<close>

record StructuredSummary =
  overview_paragraphs :: "string list"
  key_definitions :: "string list"
  core_concepts :: "string list"
  important_examples :: "string list"
  exam_revision_points :: "string list"

text \<open>\<^verbatim>\<open>str(n)\<close> for a natural number.\<close>

function show_nat :: "nat \<Rightarrow> string" where
  "show_nat n =
     (if n < 10 then [''0123456789'' ! n]
      else show_nat (n div 10) @ [''0123456789'' ! (n mod 10)])"
  by pat_completeness auto
termination
  by (relation "measure id") auto

declare show_nat.simps [simp del]

definition item_filler :: "string \<Rightarrow> nat \<Rightarrow> string" where
  "item_filler label n =
     label @ '' '' @ show_nat n
     @ '': Revise this idea and connect it to the lecture theme.''"

text \<open>The padding loop of \<open>_ensure_item_range\<close>.\<close>

function pad_items :: "string \<Rightarrow> nat \<Rightarrow> string list \<Rightarrow> string list" where
  "pad_items label min_items normalized =
     (if length normalized < min_items
      then pad_items label min_items (normalized @ [item_filler label (length normalized + 1)])
      else normalized)"
  by pat_completeness auto
termination
  by (relation "measure (\<lambda>(label, min_items, normalized). min_items - length normalized)") auto

declare pad_items.simps [simp del]

definition ensure_item_range :: "string list \<Rightarrow> string \<Rightarrow> string list" where
  "ensure_item_range items label =
     (let normalized = dedupe_strings items;
          normalized = map (\<lambda>item. shorten item 180)
                         (filter (\<lambda>item. length (strip item) > 8) normalized);
          normalized = take 8 normalized
      in pad_items label 4 normalized)"

text \<open>\<^verbatim>\<open>" ".join(xs)\<close>.\<close>

fun join_spaces :: "string list \<Rightarrow> string" where
  "join_spaces [] = []"
| "join_spaces [x] = x"
| "join_spaces (x # y # ys) = x @ '' '' @ join_spaces (y # ys)"

text \<open>
  \<open>pick_unique\<close>, the local function of \<open>build_three_paragraph_overview\<close>: it
  returns the sentences picked and the set \<^verbatim>\<open>used\<close> as it leaves it (the caller's
  set is updated in place).
\<close>

fun pick_unique_loop :: "nat \<Rightarrow> string list \<Rightarrow> string list \<Rightarrow> string list \<Rightarrow> string list \<times> string list"
  where
  "pick_unique_loop target [] picked used = (picked, used)"
| "pick_unique_loop target (sentence # pool) picked used =
     (let key = str_lower sentence in
      if key \<in> set used then pick_unique_loop target pool picked used
      else if length (picked @ [sentence]) \<ge> target then (picked @ [sentence], key # used)
      else pick_unique_loop target pool (picked @ [sentence]) (key # used))"

definition pick_unique :: "string list \<Rightarrow> string list \<Rightarrow> nat \<Rightarrow> string list \<times> string list" where
  "pick_unique pool used target = pick_unique_loop target pool [] used"

definition sentence_score :: "string list \<Rightarrow> string \<Rightarrow> nat" where
  "sentence_score corpus_tokens sentence =
     sum_list (map (count_list corpus_tokens) (remdups (content_tokens sentence)))"

definition closing_intro :: string where
  "closing_intro =
     '' Together, these points establish the lecture'' @ [CHR 0x27]
     @ ''s foundational ideas and clarify the conceptual baseline for further study.''"

definition closing_deep_dive :: string where
  "closing_deep_dive =
     '' This section also clarifies how methods, assumptions, and interpretation ''
     @ ''steps interact in practice, which is critical for accurate exam responses.''"

definition closing_evidence :: string where
  "closing_evidence =
     '' For revision, prioritize definition clarity, method explanation, and ''
     @ ''application-focused reasoning so answers remain factual, structured, and ''
     @ ''exam-ready.''"

definition with_closing :: "string list \<Rightarrow> string \<Rightarrow> string" where
  "with_closing sentences closing =
     (let para = strip (join_spaces sentences) in if para \<noteq> [] then para @ closing else para)"

definition fallback_paragraph :: "nat \<Rightarrow> string list \<Rightarrow> string" where
  "fallback_paragraph fallback_index concepts_clean =
     (let concept = (if length concepts_clean \<ge> fallback_index
                     then concepts_clean ! (fallback_index - 1) else ''core lecture ideas'')
      in shorten
           (''The lecture can be revised effectively by linking theory to ''
            @ ''example-driven explanation. ''
            @ ''Paragraph '' @ show_nat fallback_index @ '' focus: '' @ concept @ ''.'')
           620)"

text \<open>The padding loop at the end of \<open>build_three_paragraph_overview\<close>.\<close>

function pad_paragraphs :: "string list \<Rightarrow> string list \<Rightarrow> string list" where
  "pad_paragraphs concepts_clean paragraphs =
     (if length paragraphs < 3
      then pad_paragraphs concepts_clean
             (paragraphs @ [fallback_paragraph (length paragraphs + 1) concepts_clean])
      else paragraphs)"
  by pat_completeness auto
termination
  by (relation "measure (\<lambda>(concepts_clean, paragraphs). 3 - length paragraphs)") auto

declare pad_paragraphs.simps [simp del]

definition template_paragraphs :: "string list \<Rightarrow> string list" where
  "template_paragraphs concepts_clean =
     (let seed = (if take 4 concepts_clean \<noteq> [] then take 4 concepts_clean
                  else [''this lecture presents core academic ideas and applications''])
      in [''This lecture introduces the topic framework and sets foundational ''
          @ ''context for understanding the subject scope, with early emphasis on ''
          @ seed ! 0 @ ''.'',
          ''The middle portion expands the theory through method-level reasoning ''
          @ ''and conceptual links, especially around ''
          @ (if length seed > 1 then seed ! 1 else seed ! 0) @ '' and related principles.'',
          ''For exam preparation, connect definitions, reasoning steps, and ''
          @ ''applications into a coherent answer structure, focusing on ''
          @ (if length seed > 2 then seed ! 2 else seed ! 0) @ ''.''])"

definition build_three_paragraph_overview :: "string \<Rightarrow> string list \<Rightarrow> string list" where
  "build_three_paragraph_overview source_text concepts =
     (let sentences = dedupe_strings (split_sentences source_text);
          concepts_clean = dedupe_strings concepts
      in if sentences = [] then template_paragraphs concepts_clean
         else
           (let corpus_tokens = content_tokens source_text;
                ranked_sentences =
                  sort_key (\<lambda>sentence. - int (sentence_score corpus_tokens sentence)) sentences;
                top_sentences = dedupe_strings (take 15 ranked_sentences);
                intro_pool = take 6 top_sentences;
                deep_dive_pool = take 9 (drop 3 top_sentences);
                evidence_pool = (if length top_sentences > 8 then take 7 (drop 8 top_sentences)
                                 else drop 4 top_sentences);
                (para1_sentences, used1) = pick_unique intro_pool [] 3;
                (para2_sentences, used2) = pick_unique deep_dive_pool used1 3;
                (para3_sentences, used3) = pick_unique evidence_pool used2 2;
                (para2_sentences, used4) =
                  (if length para2_sentences < 2
                   then (case pick_unique top_sentences used3 (2 - length para2_sentences) of
                           (extra, used) \<Rightarrow> (para2_sentences @ extra, used))
                   else (para2_sentences, used3));
                (para3_sentences, used5) =
                  (if length para3_sentences < 2
                   then (case pick_unique top_sentences used4 (2 - length para3_sentences) of
                           (extra, used) \<Rightarrow> (para3_sentences @ extra, used))
                   else (para3_sentences, used4));
                para1 = with_closing para1_sentences closing_intro;
                para2 = with_closing para2_sentences closing_deep_dive;
                para3 = with_closing para3_sentences closing_evidence;
                paragraphs = map (\<lambda>paragraph. shorten paragraph 620)
                               (filter (\<lambda>paragraph. strip paragraph \<noteq> []) [para1, para2, para3]);
                paragraphs = dedupe_strings paragraphs
            in take 3 (pad_paragraphs concepts_clean paragraphs)))"

text \<open>
  The \<^verbatim>\<open>for\<close> loop inside the \<^verbatim>\<open>while\<close> loop of
  \<open>validate_structured_summary\<close>: it appends the generated paragraphs that are not
  there yet (compared in lower case) and stops at three.
\<close>

fun append_missing :: "string list \<Rightarrow> string list \<Rightarrow> string list" where
  "append_missing [] overview = overview"
| "append_missing (paragraph # generated) overview =
     (if length overview \<ge> 3 then overview
      else if str_lower paragraph \<in> set (map str_lower overview)
      then append_missing generated overview
      else append_missing generated (overview @ [paragraph]))"

text \<open>
  The \<^verbatim>\<open>while len(validated.overview_paragraphs) < 3\<close> loop. Nothing bounds the
  number of its rounds, so it is a partial function: \<open>None\<close> stands for a loop that
  never ends.
\<close>

partial_function (option) overview_loop :: "string \<Rightarrow> string list \<Rightarrow> string list \<Rightarrow> string list option"
  where
  "overview_loop source_text concepts overview =
     (if length overview < 3
      then overview_loop source_text concepts
             (append_missing (build_three_paragraph_overview source_text concepts) overview)
      else Some overview)"

definition validate_structured_summary :: "StructuredSummary \<Rightarrow> string \<Rightarrow> StructuredSummary option"
  where
  "validate_structured_summary summary source_text =
     (let validated =
            \<lparr>overview_paragraphs = take 3 (dedupe_strings (overview_paragraphs summary)),
             key_definitions = ensure_item_range (key_definitions summary) ''Definition'',
             core_concepts = ensure_item_range (core_concepts summary) ''Concept'',
             important_examples = ensure_item_range (important_examples summary) ''Example'',
             exam_revision_points =
               ensure_item_range (exam_revision_points summary) ''Revision Point''\<rparr>;
          overview = (if length (overview_paragraphs validated) < 3
                      then build_three_paragraph_overview source_text (core_concepts validated)
                      else overview_paragraphs validated);
          overview = dedupe_strings overview
      in map_option (\<lambda>overview. validated\<lparr>overview_paragraphs := overview\<rparr>)
           (overview_loop source_text (core_concepts validated) overview))"

text \<open>
  What \<open>_ensure_item_range\<close> makes of a candidate field, stated on its result: the
  count is within 4 and 8, no item is longer than 183 characters (180 and the ellipsis),
  the items kept from the candidate are its de-duplicated items of more than 8 characters,
  shortened, at most 8 of them, and the fillers that follow carry the label and the
  running index up to 4; the de-duplicated candidate has no two items equal in lower case.
\<close>

definition field_contract :: "string \<Rightarrow> string list \<Rightarrow> string list \<Rightarrow> bool" where
  "field_contract label candidate result \<longleftrightarrow>
     4 \<le> length result \<and> length result \<le> 8
     \<and> (\<forall>item \<in> set result. length item \<le> 183)
     \<and> (let kept = take 8 (map (\<lambda>item. shorten item 180)
                              (filter (\<lambda>item. length item > 8) (dedupe_strings candidate)))
        in result = kept @ map (item_filler label) [length kept + 1 ..< 5])
     \<and> distinct (map str_lower (dedupe_strings candidate))"

definition looping_source :: string where
  "looping_source =
     ''The lecture can be revised effectively by linking theory to example-driven ''
     @ ''explanation. Paragraph 2 focus: abc.''"

definition looping_candidate :: StructuredSummary where
  "looping_candidate =
     \<lparr>overview_paragraphs = [],
      key_definitions = [],
      core_concepts =
        [''Linking theory to examples'',
         ''abc. Together, these points establish the lecture'' @ [CHR 0x27]
         @ ''s foundational ideas and clarify the conceptual baseline for further ''
         @ ''study''],
      important_examples = [],
      exam_revision_points = []\<rparr>"

definition looping_paragraph :: string where
  "looping_paragraph =
     ''The lecture can be revised effectively by linking theory to example-driven ''
     @ ''explanation. Paragraph 2 focus: abc. Together, these points establish the ''
     @ ''lecture'' @ [CHR 0x27]
     @ ''s foundational ideas and clarify the conceptual baseline for further study.''"

definition looping_third :: string where
  "looping_third =
     ''The lecture can be revised effectively by linking theory to example-driven ''
     @ ''explanation. Paragraph 3 focus: Concept 3: Revise this idea and connect it ''
     @ ''to the lecture theme..''"

definition sloppy_candidate :: StructuredSummary where
  "sloppy_candidate =
     \<lparr>overview_paragraphs =
        [''Gradient descent follows the slope.'', ''The step size matters.'',
         ''Momentum smooths the path.''],
      key_definitions = [''Definition 2: Revise this idea and connect it to the ''
                         @ ''lecture theme.''],
      core_concepts = [replicate 200 (CHR ''x'')],
      important_examples = [''Example: a   quadratic bowl'', ''example: A quadratic bowl'', ''tiny''],
      exam_revision_points = []\<rparr>"

definition sloppy_validated :: StructuredSummary where
  "sloppy_validated =
     \<lparr>overview_paragraphs =
        [''Gradient descent follows the slope.'', ''The step size matters.'',
         ''Momentum smooths the path.''],
      key_definitions =
        [''Definition 2: Revise this idea and connect it to the lecture theme.'',
         ''Definition 2: Revise this idea and connect it to the lecture theme.'',
         ''Definition 3: Revise this idea and connect it to the lecture theme.'',
         ''Definition 4: Revise this idea and connect it to the lecture theme.''],
      core_concepts =
        [replicate 180 (CHR ''x'') @ ''...'',
         ''Concept 2: Revise this idea and connect it to the lecture theme.'',
         ''Concept 3: Revise this idea and connect it to the lecture theme.'',
         ''Concept 4: Revise this idea and connect it to the lecture theme.''],
      important_examples =
        [''Example: a quadratic bowl'',
         ''Example 2: Revise this idea and connect it to the lecture theme.'',
         ''Example 3: Revise this idea and connect it to the lecture theme.'',
         ''Example 4: Revise this idea and connect it to the lecture theme.''],
      exam_revision_points =
        [''Revision Point 1: Revise this idea and connect it to the lecture theme.'',
         ''Revision Point 2: Revise this idea and connect it to the lecture theme.'',
         ''Revision Point 3: Revise this idea and connect it to the lecture theme.'',
         ''Revision Point 4: Revise this idea and connect it to the lecture theme.'']\<rparr>"

section \<open>Offline multiple-choice questions (services/local\_ai\_service.py)\<close>

record MCQItem =
  question :: string
  options :: "string list"
  correct_index :: nat
  explanation :: string













section \<open>Model adapters (services/llm\_utils.py, ollama\_service.py, gemini\_service.py)\<close>

subsection \<open>Calls that may raise\<close>

text \<open>
  An adapter talks to its model through an oracle and may raise at any step. Its methods
  are callables on the oracle's state: \<open>returns\<close> and \<open>raises\<close> end a call,
  \<open>and_then\<close> runs the next statement on the value (an exception passes through) and
  \<open>or_else\<close> is \<^verbatim>\<open>try ... except Exception\<close>.
\<close>

definition returns :: "'a \<Rightarrow> ('s, 'a) callable" where
  "returns a = (\<lambda>s. (Inr a, s))"

definition raises :: "exn \<Rightarrow> ('s, 'a) callable" where
  "raises e = (\<lambda>s. (Inl e, s))"

definition and_then :: "('s, 'a) callable \<Rightarrow> ('a \<Rightarrow> ('s, 'b) callable) \<Rightarrow> ('s, 'b) callable" where
  "and_then m f = (\<lambda>s. case m s of (Inl e, s') \<Rightarrow> (Inl e, s') | (Inr a, s') \<Rightarrow> f a s')"

definition or_else :: "('s, 'a) callable \<Rightarrow> (exn \<Rightarrow> ('s, 'a) callable) \<Rightarrow> ('s, 'a) callable" where
  "or_else m h = (\<lambda>s. case m s of (Inl e, s') \<Rightarrow> h e s' | (Inr a, s') \<Rightarrow> (Inr a, s'))"

subsection \<open>JSON payloads\<close>

datatype json =
  JNull | JBool bool | JNumber int | JString string | JArray "json list"
  | JObject "(string \<times> json) list"

definition is_object :: "json \<Rightarrow> bool" where
  "is_object j = (case j of JObject members \<Rightarrow> True | _ \<Rightarrow> False)"

definition starts_with :: "string \<Rightarrow> string \<Rightarrow> bool" where
  "starts_with p s \<longleftrightarrow> take (length p) s = p"

text \<open>
  The search for
  \<^verbatim>\<open>```(?:json)?\s*(\{.*?\}|\[.*?\])\s*```\<close> with \<^verbatim>\<open>re.DOTALL\<close>, which
  gives group 1 of the leftmost match. After the opening fence the engine first tries to
  take \<^verbatim>\<open>json\<close>, then goes on without it; after the whitespace the group opens
  with a brace or a bracket and, being lazy, closes at the first matching closing character
  that is followed by optional whitespace and a fence.
\<close>

fun lazy_close :: "char \<Rightarrow> string \<Rightarrow> string \<Rightarrow> string option" where
  "lazy_close closing acc [] = None"
| "lazy_close closing acc (x # xs) =
     (if x = closing \<and> starts_with ''```'' (dropWhile is_space xs) then Some (rev (x # acc))
      else lazy_close closing (x # acc) xs)"

definition fenced_group :: "string \<Rightarrow> string option" where
  "fenced_group t =
     (case dropWhile is_space t of
        [] \<Rightarrow> None
      | c # u \<Rightarrow>
          if c = CHR ''{'' then lazy_close (CHR ''}'') [c] u
          else if c = CHR ''['' then lazy_close (CHR '']'') [c] u
          else None)"

definition after_fence :: "string \<Rightarrow> string option" where
  "after_fence rest =
     (case (if starts_with ''json'' rest then fenced_group (drop 4 rest) else None) of
        Some g \<Rightarrow> Some g
      | None \<Rightarrow> fenced_group rest)"

fun search_fenced :: "string \<Rightarrow> string option" where
  "search_fenced [] = None"
| "search_fenced (c # cs) =
     (case (if starts_with ''```'' (c # cs) then after_fence (drop 3 (c # cs)) else None) of
        Some g \<Rightarrow> Some g
      | None \<Rightarrow> search_fenced cs)"

text \<open>
  The searches for \<^verbatim>\<open>(\{.*\})\<close> and \<^verbatim>\<open>(\[.*\])\<close> with
  \<^verbatim>\<open>re.DOTALL\<close>: from the first opening character to the last closing character
  after it.
\<close>

definition greedy_span :: "char \<Rightarrow> char \<Rightarrow> string \<Rightarrow> string option" where
  "greedy_span opening closing s =
     (case dropWhile (\<lambda>c. c \<noteq> opening) s of
        [] \<Rightarrow> None
      | c # body \<Rightarrow>
          (case rev (dropWhile (\<lambda>d. d \<noteq> closing) (rev body)) of
             [] \<Rightarrow> None
           | x # xs \<Rightarrow> Some (c # x # xs)))"

text \<open>
  \<open>extract_json_payload\<close>, with \<^verbatim>\<open>json.loads\<close> of the standard library as a
  parameter: \<open>None\<close> from it is a \<^verbatim>\<open>JSONDecodeError\<close>, and \<open>None\<close> from the
  extraction is that error leaving the function.
\<close>

definition extract_json_payload :: "(string \<Rightarrow> json option) \<Rightarrow> string \<Rightarrow> json option" where
  "extract_json_payload json_loads text =
     (let candidate = (case search_fenced text of Some g \<Rightarrow> g | None \<Rightarrow> text) in
      case json_loads candidate of
        Some j \<Rightarrow> Some j
      | None \<Rightarrow>
          (let payload =
                 (case greedy_span (CHR ''{'') (CHR ''}'') candidate of
                    Some object_match \<Rightarrow> object_match
                  | None \<Rightarrow>
                      (case greedy_span (CHR ''['') (CHR '']'') candidate of
                         Some array_match \<Rightarrow> array_match
                       | None \<Rightarrow> []))
           in if payload = [] then None else json_loads payload))"

subsection \<open>Prompts and generation\<close>

text \<open>
  A prompt is recorded as the builder of core/prompts.py that made it, with its
  arguments; \<open>RetryPrompt\<close> is a prompt with the suffix that asks for JSON only. The text
  the builders render is not modelled: an oracle that is given the arguments can answer
  in every way an oracle that is given the text can. Temperatures are in tenths. An
  oracle is asked with the prompt and the temperature and answers with a text or fails.
\<close>

datatype prompt =
  SummaryPrompt string
  | ChunkPrompt string nat nat
  | ReducePrompt "json list"
  | SynthesisPrompt json string
  | ValidationPrompt json json
  | RetryPrompt prompt

type_synonym 's llm = "prompt \<Rightarrow> nat \<Rightarrow> ('s, string) callable"

definition OllamaService_generate :: "bool \<Rightarrow> 's llm \<Rightarrow> 's llm" where
  "OllamaService_generate enabled model prompt temperature =
     (if \<not> enabled then raises (Exception ''Ollama fallback is disabled.'')
      else and_then
             (or_else (model prompt temperature)
                (\<lambda>e. raises (Exception ''Ollama request failed'')))
             (\<lambda>response. if strip response = []
                          then raises (Exception ''Ollama returned an empty response.'')
                          else returns (strip response)))"

definition GeminiService_generate :: "'s llm \<Rightarrow> 's llm" where
  "GeminiService_generate model prompt temperature =
     and_then
       (or_else (model prompt temperature) (\<lambda>e. raises (Exception ''Gemini request failed'')))
       (\<lambda>response. if response \<noteq> [] then returns (strip response)
                    else raises (Exception ''Gemini returned an empty response.''))"

text \<open>\<open>_generate_json\<close>, the same in both adapters but for the \<open>_generate\<close> it calls.\<close>

definition generate_json ::
  "(string \<Rightarrow> json option) \<Rightarrow> 's llm \<Rightarrow> prompt \<Rightarrow> nat \<Rightarrow> ('s, json) callable" where
  "generate_json json_loads generate prompt temperature =
     and_then (generate prompt temperature)
       (\<lambda>response_text.
          case extract_json_payload json_loads response_text of
            Some j \<Rightarrow> returns j
          | None \<Rightarrow>
              and_then (generate (RetryPrompt prompt) (max 1 (temperature - 1)))
                (\<lambda>retry_text.
                   case extract_json_payload json_loads retry_text of
                     Some j \<Rightarrow> returns j
                   | None \<Rightarrow> raises (Exception ''JSONDecodeError'')))"

subsection \<open>The multi-pass protocol\<close>

text \<open>
  The loop over \<^verbatim>\<open>enumerate(chunks, start=1)\<close>: a chunk whose data is an object adds
  a note, any other data adds nothing, and an exception leaves the loop.
\<close>

fun chunk_notes_loop ::
  "(prompt \<Rightarrow> nat \<Rightarrow> ('s, json) callable) \<Rightarrow> nat \<Rightarrow> nat \<Rightarrow> string list \<Rightarrow> json list
     \<Rightarrow> ('s, json list) callable" where
  "chunk_notes_loop ask total_chunks index [] chunk_notes = returns chunk_notes"
| "chunk_notes_loop ask total_chunks index (chunk # rest) chunk_notes =
     and_then (ask (ChunkPrompt chunk index total_chunks) 2)
       (\<lambda>chunk_data.
          chunk_notes_loop ask total_chunks (index + 1) rest
            (if is_object chunk_data then chunk_notes @ [chunk_data] else chunk_notes))"

text \<open>
  The three passes after the chunk notes, the same in both adapters but for the notes a
  failed reduction is replaced by.
\<close>

definition reduce_synthesize_validate ::
  "(prompt \<Rightarrow> nat \<Rightarrow> ('s, json) callable) \<Rightarrow> json \<Rightarrow> string \<Rightarrow> json list \<Rightarrow> ('s, json) callable"
  where
  "reduce_synthesize_validate ask empty_notes cleaned chunk_notes =
     and_then (ask (ReducePrompt chunk_notes) 2)
       (\<lambda>reduced_data.
          let reduced = (if is_object reduced_data then reduced_data else empty_notes) in
          and_then (ask (SynthesisPrompt reduced cleaned) 2)
            (\<lambda>candidate_data.
               let candidate = (if is_object candidate_data then candidate_data else reduced) in
               and_then (ask (ValidationPrompt candidate reduced) 1)
                 (\<lambda>validated_data.
                    returns (if is_object validated_data then validated_data else candidate))))"

text \<open>
  \<open>OllamaService.summarize\<close> up to the dictionary it normalises and validates
  (\<^verbatim>\<open>data\<close> on the short path, \<^verbatim>\<open>final_data\<close> on the long one).
\<close>

definition OllamaService_summarize_data ::
  "(prompt \<Rightarrow> nat \<Rightarrow> ('s, json) callable) \<Rightarrow> string \<Rightarrow> ('s, json) callable" where
  "OllamaService_summarize_data ask transcript_text =
     (let cleaned = clean_transcript_text transcript_text 120000;
          chunks = split_into_chunks cleaned 2400 200 8
      in if chunks = []
         then and_then (ask (SummaryPrompt cleaned) 2)
                (\<lambda>data. if is_object data then returns data
                         else raises (Exception
                                ''Could not parse structured summary from Ollama response.''))
         else and_then (chunk_notes_loop ask (length chunks) 1 chunks [])
                (\<lambda>chunk_notes.
                   and_then (reduce_synthesize_validate ask (JObject []) cleaned chunk_notes)
                     (\<lambda>final_data.
                        if is_object final_data then returns final_data
                        else raises (Exception
                               ''Could not parse structured summary from Ollama response.''))))"

definition gemini_empty_notes :: json where
  "gemini_empty_notes =
     JObject [(''key_definitions'', JArray []), (''core_concepts'', JArray []),
              (''important_examples'', JArray []), (''exam_revision_points'', JArray []),
              (''fact_bank'', JArray [])]"

definition GeminiService_multi_pass_summary ::
  "(prompt \<Rightarrow> nat \<Rightarrow> ('s, json) callable) \<Rightarrow> string \<Rightarrow> ('s, json) callable" where
  "GeminiService_multi_pass_summary ask transcript_text =
     (let cleaned = clean_transcript_text transcript_text 120000;
          chunks = split_into_chunks cleaned 2500 240 10
      in if chunks = []
         then and_then (ask (SummaryPrompt cleaned) 2)
                (\<lambda>data. returns (if is_object data then data else JObject []))
         else and_then (chunk_notes_loop ask (length chunks) 1 chunks [])
                (\<lambda>chunk_notes.
                   if chunk_notes = []
                   then and_then (ask (SummaryPrompt cleaned) 2)
                          (\<lambda>fallback. returns (if is_object fallback then fallback else JObject []))
                   else reduce_synthesize_validate ask gemini_empty_notes cleaned chunk_notes))"

text \<open>
  \<open>GeminiService.summarize\<close> up to the dictionary it normalises and validates: any
  exception of the multi-pass protocol is answered by one single-shot request.
\<close>

definition GeminiService_summarize_data ::
  "(prompt \<Rightarrow> nat \<Rightarrow> ('s, json) callable) \<Rightarrow> string \<Rightarrow> ('s, json) callable" where
  "GeminiService_summarize_data ask transcript_text =
     (let cleaned = clean_transcript_text transcript_text 120000 in
      or_else (GeminiService_multi_pass_summary ask cleaned)
        (\<lambda>e. and_then (ask (SummaryPrompt cleaned) 2)
                (\<lambda>fallback_data.
                   returns (if is_object fallback_data then fallback_data else JObject []))))"

subsection \<open>A model that answers every chunk with a JSON array\<close>

text \<open>
  For the examples: an oracle whose state is the list of the prompts it has been sent. It
  answers a chunk prompt with \<^verbatim>\<open>[]\<close> and any other prompt with \<^verbatim>\<open>{}\<close>. On
  these two texts \<^verbatim>\<open>json.loads\<close> gives the empty array and the empty object; the
  stand-in below rejects every other text.
\<close>

fun array_model :: "(prompt list) llm" where
  "array_model (ChunkPrompt chunk index total_chunks) temperature sent =
     (Inr ''[]'', sent @ [ChunkPrompt chunk index total_chunks])"
| "array_model (RetryPrompt p) temperature sent = (Inr ''[]'', sent @ [RetryPrompt p])"
| "array_model p temperature sent = (Inr ''{}'', sent @ [p])"

definition json_loads_brackets :: "string \<Rightarrow> json option" where
  "json_loads_brackets s =
     (if s = ''[]'' then Some (JArray []) else if s = ''{}'' then Some (JObject []) else None)"

definition short_lecture :: string where
  "short_lecture = ''Gradient descent follows the slope of the loss.''"

text \<open>A model that answers a chunk prompt, and its retry, with text that holds no JSON.\<close>

fun prose_model :: "(prompt list) llm" where
  "prose_model (ChunkPrompt chunk index total_chunks) temperature sent =
     (Inr ''I cannot summarise this.'', sent @ [ChunkPrompt chunk index total_chunks])"
| "prose_model (RetryPrompt p) temperature sent =
     (Inr ''I cannot summarise this.'', sent @ [RetryPrompt p])"
| "prose_model p temperature sent = (Inr ''{}'', sent @ [p])"

section \<open>Session expiry\<close>

lemma cleanup_expired_absent:
  "sessions st sid = Some d \<Longrightarrow> expired now (ttl st) d \<Longrightarrow>
   sessions (cleanup_expired_locked now st) sid = None"
  by (simp add: cleanup_expired_locked_def)

text \<open>
  C9. A session whose last update is older than the time-to-live at the moment of the
  access is not returned by \<open>get\<close>: the sweep that opens \<open>get\<close> removes it, so
  the result is \<open>None\<close> and the store no longer holds the identifier, without any
  explicit delete.
\<close>

theorem get_expired_is_absent:
  assumes "sessions st sid = Some d" and "updated_at d = Some u" and "now - u > ttl st"
  shows "fst (SessionStore_get now now' sid st) = None
       \<and> sessions (snd (SessionStore_get now now' sid st)) sid = None"
proof -
  have "expired now (ttl st) d"
    using assms(2,3) by (simp add: expired_def)
  with assms(1) have "sessions (cleanup_expired_locked now st) sid = None"
    by (rule cleanup_expired_absent)
  then show ?thesis
    by (simp add: SessionStore_get_def Let_def)
qed

theorem get_expired_is_absent_witness:
  "sessions demo_store ''old'' = Some (demo_session 0)
   \<and> updated_at (demo_session 0) = Some 0
   \<and> 14400000001 - 0 > ttl demo_store
   \<and> fst (SessionStore_get 14400000001 14400000002 ''old'' demo_store) = None
   \<and> sessions (snd (SessionStore_get 14400000001 14400000002 ''old'' demo_store)) ''old'' = None"
proof -
  have a: "sessions demo_store ''old'' = Some (demo_session 0)"
    by (simp add: demo_store_def)
  have b: "updated_at (demo_session 0) = Some 0"
    by (simp add: demo_session_def)
  have c: "14400000001 - 0 > ttl demo_store"
    by (simp add: demo_store_def)
  from get_expired_is_absent [OF a b c, of 14400000002] a b c show ?thesis
    by simp
qed

lemma get_live_is_returned:
  "fst (SessionStore_get 14400000001 14400000002 ''new'' demo_store)
     = Some ((demo_session 14400000000)\<lparr>updated_at := Some 14400000002\<rparr>)"
  by (simp add: SessionStore_get_def cleanup_expired_locked_def expired_def demo_store_def
      demo_session_def Let_def)


section \<open>Fallback chain\<close>

lemma secondary_raises_gives_local:
  "fst (ollama_call s) = Inl e \<Longrightarrow>
   run_secondary_then_local ollama_call local_call s = local_call (snd (ollama_call s))"
  by (cases "ollama_call s") (simp add: run_secondary_then_local_def)

lemma primary_falls_back:
  "fst (gemini_call s) = Inl e \<Longrightarrow> falls_back e \<Longrightarrow>
   run_with_fallback_chain gemini_call ollama_call local_call s
     = run_secondary_then_local ollama_call local_call (snd (gemini_call s))"
  by (cases "gemini_call s"; cases e)
     (simp_all add: run_with_fallback_chain_def falls_back_def)

lemma primary_client_error_propagates:
  "fst (gemini_call s) = Inl (HTTPException code d) \<Longrightarrow> \<not> is_recoverable_http_error code \<Longrightarrow>
   run_with_fallback_chain gemini_call ollama_call local_call s = gemini_call s"
  by (cases "gemini_call s") (simp add: run_with_fallback_chain_def)

lemma counted_fst: "fst (counted t f (s, n)) = fst (f s)"
  by (cases "f s") (simp add: counted_def)

lemma counted_snd: "snd (counted t f (s, n)) = (snd (f s), n(t := Suc (n t)))"
  by (cases "f s") (simp add: counted_def)

text \<open>
  C2. When the primary raises an exception that falls back (an HTTP error with status
  401, 403, 429, 500, 502, 503 or 504, or any exception that is not an HTTP error) and the
  secondary then raises any exception, the chain's outcome is the outcome of the tertiary,
  run once on the state the secondary left: with counters attached, the tertiary has been
  invoked exactly once (and so have the other two). When the primary raises an HTTP error
  with any other status (400 for example), that error is the chain's outcome and neither
  the secondary nor the tertiary has been invoked.
\<close>

theorem fallback_chain_contract:
  fixes gemini_call ollama_call local_call :: "('s, 'a) callable"
  defines "run \<equiv> run_with_fallback_chain gemini_call ollama_call local_call"
  defines "run_counted \<equiv> run_with_fallback_chain (counted Primary gemini_call)
                            (counted Secondary ollama_call) (counted Tertiary local_call)"
  shows "(fst (gemini_call s) = Inl e1 \<and> falls_back e1
            \<and> fst (ollama_call (snd (gemini_call s))) = Inl e2
          \<longrightarrow> run s = local_call (snd (ollama_call (snd (gemini_call s))))
            \<and> fst (run_counted (s, \<lambda>t. 0)) = fst (run s)
            \<and> snd (snd (run_counted (s, \<lambda>t. 0))) Tertiary = 1
            \<and> snd (snd (run_counted (s, \<lambda>t. 0))) Secondary = 1
            \<and> snd (snd (run_counted (s, \<lambda>t. 0))) Primary = 1)
       \<and> (fst (gemini_call s) = Inl (HTTPException code d) \<and> \<not> is_recoverable_http_error code
          \<longrightarrow> run s = (Inl (HTTPException code d), snd (gemini_call s))
            \<and> fst (run_counted (s, \<lambda>t. 0)) = Inl (HTTPException code d)
            \<and> snd (snd (run_counted (s, \<lambda>t. 0))) Secondary = 0
            \<and> snd (snd (run_counted (s, \<lambda>t. 0))) Tertiary = 0)"
proof (intro conjI impI)
  assume h: "fst (gemini_call s) = Inl e1 \<and> falls_back e1
             \<and> fst (ollama_call (snd (gemini_call s))) = Inl e2"
  let ?s1 = "snd (gemini_call s)"
  let ?s2 = "snd (ollama_call ?s1)"
  let ?n1 = "(\<lambda>t. 0::nat)(Primary := Suc 0)"
  let ?n2 = "?n1(Secondary := Suc (?n1 Secondary))"
  show r: "run s = local_call ?s2"
    using h by (simp add: run_def primary_falls_back secondary_raises_gives_local)
  have c1: "fst (counted Primary gemini_call (s, \<lambda>t. 0)) = Inl e1"
    using h by (simp add: counted_fst)
  have c2: "fst (counted Secondary ollama_call (?s1, ?n1)) = Inl e2"
    using h by (simp add: counted_fst)
  have "run_counted (s, \<lambda>t. 0)
          = run_secondary_then_local (counted Secondary ollama_call) (counted Tertiary local_call)
              (snd (counted Primary gemini_call (s, \<lambda>t. 0)))"
    unfolding run_counted_def
    using c1 h
    by (intro primary_falls_back [where gemini_call = "counted Primary gemini_call"
          and s = "(s, \<lambda>t. 0)" and e = e1]) simp_all
  also have "\<dots> = run_secondary_then_local (counted Secondary ollama_call)
                      (counted Tertiary local_call) (?s1, ?n1)"
    by (simp add: counted_snd)
  also have "\<dots> = counted Tertiary local_call (snd (counted Secondary ollama_call (?s1, ?n1)))"
    using c2
    by (intro secondary_raises_gives_local [where ollama_call = "counted Secondary ollama_call"
          and s = "(?s1, ?n1)" and e = e2])
  finally have rc: "run_counted (s, \<lambda>t. 0) = counted Tertiary local_call (?s2, ?n2)"
    by (simp add: counted_snd)
  show "fst (run_counted (s, \<lambda>t. 0)) = fst (run s)"
    by (simp add: rc r counted_fst)
  show "snd (snd (run_counted (s, \<lambda>t. 0))) Tertiary = 1"
    by (simp add: rc counted_snd)
  show "snd (snd (run_counted (s, \<lambda>t. 0))) Secondary = 1"
    by (simp add: rc counted_snd)
  show "snd (snd (run_counted (s, \<lambda>t. 0))) Primary = 1"
    by (simp add: rc counted_snd)
next
  assume h: "fst (gemini_call s) = Inl (HTTPException code d) \<and> \<not> is_recoverable_http_error code"
  have p: "run s = gemini_call s"
    using h by (simp add: run_def primary_client_error_propagates)
  show "run s = (Inl (HTTPException code d), snd (gemini_call s))"
    using h by (simp add: p prod_eq_iff)
  have c1: "fst (counted Primary gemini_call (s, \<lambda>t. 0)) = Inl (HTTPException code d)"
    using h by (simp add: counted_fst)
  have rc: "run_counted (s, \<lambda>t. 0) = counted Primary gemini_call (s, \<lambda>t. 0)"
    unfolding run_counted_def using c1 h
    by (intro primary_client_error_propagates [where gemini_call = "counted Primary gemini_call"
          and s = "(s, \<lambda>t. 0)" and code = code and d = d]) simp_all
  show "fst (run_counted (s, \<lambda>t. 0)) = Inl (HTTPException code d)"
    by (simp add: rc c1)
  show "snd (snd (run_counted (s, \<lambda>t. 0))) Secondary = 0"
    by (simp add: rc counted_snd)
  show "snd (snd (run_counted (s, \<lambda>t. 0))) Tertiary = 0"
    by (simp add: rc counted_snd)
qed

theorem fallback_chain_contract_witness:
  "fst (raising (HTTPException 503 ''busy'') 0) = Inl (HTTPException 503 ''busy'')
   \<and> falls_back (HTTPException 503 ''busy'')
   \<and> fst (raising (Exception ''connection refused'') (snd (raising (HTTPException 503 ''busy'') 0)))
       = Inl (Exception ''connection refused'')
   \<and> run_with_fallback_chain (raising (HTTPException 503 ''busy''))
         (raising (Exception ''connection refused'')) (returning ''offline answer'') 0
       = (Inr ''offline answer'', 3)
   \<and> snd (snd (run_with_fallback_chain (counted Primary (raising (HTTPException 503 ''busy'')))
         (counted Secondary (raising (Exception ''connection refused'')))
         (counted Tertiary (returning ''offline answer'')) (0, \<lambda>t. 0))) Tertiary = 1
   \<and> fst (raising (HTTPException 400 ''bad request'') 0) = Inl (HTTPException 400 ''bad request'')
   \<and> \<not> is_recoverable_http_error 400
   \<and> run_with_fallback_chain (raising (HTTPException 400 ''bad request''))
         (raising (Exception ''connection refused'')) (returning ''offline answer'') 0
       = (Inl (HTTPException 400 ''bad request''), 1)
   \<and> snd (snd (run_with_fallback_chain (counted Primary (raising (HTTPException 400 ''bad request'')))
         (counted Secondary (raising (Exception ''connection refused'')))
         (counted Tertiary (returning ''offline answer'')) (0, \<lambda>t. 0))) Tertiary = 0"
  using fallback_chain_contract [where gemini_call = "raising (HTTPException 503 ''busy'')"
      and ollama_call = "raising (Exception ''connection refused'')"
      and local_call = "returning ''offline answer''" and s = 0
      and ?e1.0 = "HTTPException 503 ''busy''" and ?e2.0 = "Exception ''connection refused''"
      and code = 400 and d = "''bad request''"]
    fallback_chain_contract [where gemini_call = "raising (HTTPException 400 ''bad request'')"
      and ollama_call = "raising (Exception ''connection refused'')"
      and local_call = "returning ''offline answer''" and s = 0
      and ?e1.0 = "HTTPException 503 ''busy''" and ?e2.0 = "Exception ''connection refused''"
      and code = 400 and d = "''bad request''"]
  by (simp add: raising_def returning_def falls_back_def is_recoverable_http_error_def)

section \<open>Whitespace in cleaned transcripts\<close>

lemma adjacent_ws_Cons:
  "adjacent_ws (a # xs) \<longleftrightarrow> (is_space a \<and> xs \<noteq> [] \<and> is_space (hd xs)) \<or> adjacent_ws xs"
  by (cases xs) auto

lemma adjacent_ws_append:
  "adjacent_ws (xs @ ys) \<longleftrightarrow>
     adjacent_ws xs \<or> adjacent_ws ys \<or> (xs \<noteq> [] \<and> ys \<noteq> [] \<and> is_space (last xs) \<and> is_space (hd ys))"
proof (induction xs)
  case Nil
  then show ?case by simp
next
  case (Cons a xs)
  show ?case
  proof (cases xs)
    case Nil
    then show ?thesis by (auto simp: adjacent_ws_Cons)
  next
    case (Cons b bs)
    with Cons.IH show ?thesis by (auto simp: adjacent_ws_Cons)
  qed
qed

lemma adjacent_ws_rev: "adjacent_ws (rev xs) \<longleftrightarrow> adjacent_ws xs"
proof (induction xs)
  case Nil
  then show ?case by simp
next
  case (Cons a xs)
  then show ?case
    by (cases xs) (auto simp: adjacent_ws_append adjacent_ws_Cons last_rev hd_rev)
qed

lemma adjacent_ws_dropWhile: "\<not> adjacent_ws xs \<Longrightarrow> \<not> adjacent_ws (dropWhile P xs)"
  by (induction xs) (auto simp: adjacent_ws_Cons)

lemma adjacent_ws_take: "\<not> adjacent_ws xs \<Longrightarrow> \<not> adjacent_ws (take n xs)"
proof -
  assume "\<not> adjacent_ws xs"
  then have "\<not> adjacent_ws (take n xs @ drop n xs)" by simp
  then show ?thesis unfolding adjacent_ws_append by blast
qed

lemma adjacent_ws_strip: "\<not> adjacent_ws xs \<Longrightarrow> \<not> adjacent_ws (strip xs)"
  by (simp add: strip_def lstrip_def rstrip_def adjacent_ws_dropWhile adjacent_ws_rev)

lemma set_strip: "set (strip xs) \<subseteq> set xs"
proof -
  have "set (dropWhile is_space (rev (dropWhile is_space (rev xs))))
          \<subseteq> set (rev (dropWhile is_space (rev xs)))"
    by (meson set_dropWhileD subsetI)
  also have "\<dots> \<subseteq> set xs"
    using set_dropWhileD by fastforce
  finally show ?thesis by (simp add: strip_def lstrip_def rstrip_def)
qed

lemma sub_ws_runs_spaces: "c \<in> set (sub_ws_runs b s) \<Longrightarrow> is_space c \<Longrightarrow> c = CHR '' ''"
  by (induction s arbitrary: b) (auto split: if_splits)

lemma sub_ws_runs_shape:
  "\<not> adjacent_ws (sub_ws_runs b s)
   \<and> (b \<longrightarrow> sub_ws_runs b s = [] \<or> \<not> is_space (hd (sub_ws_runs b s)))"
  by (induction s arbitrary: b) (auto simp: adjacent_ws_Cons)

lemma normalize_ws_not_adjacent: "\<not> adjacent_ws (normalize_ws s)"
  by (simp add: normalize_ws_def collapse_ws_def adjacent_ws_strip sub_ws_runs_shape)

lemma normalize_ws_spaces: "c \<in> set (normalize_ws s) \<Longrightarrow> is_space c \<Longrightarrow> c = CHR '' ''"
  using set_strip sub_ws_runs_spaces
  by (fastforce simp: normalize_ws_def collapse_ws_def)

lemma clean_passes_not_adjacent: "\<not> adjacent_ws (clean_passes v)"
  by (simp add: clean_passes_def Let_def normalize_ws_not_adjacent)

lemma clean_passes_spaces: "c \<in> set (clean_passes v) \<Longrightarrow> is_space c \<Longrightarrow> c = CHR '' ''"
  by (simp add: clean_passes_def Let_def normalize_ws_spaces)

lemma truncation_marker_spaces: "c \<in> set truncation_marker \<Longrightarrow> is_space c \<Longrightarrow> c = CHR '' ''"
  by (auto simp: truncation_marker_def is_space_def)

lemma set_py_slice_to: "set (py_slice_to xs k) \<subseteq> set xs"
  by (auto simp: py_slice_to_def dest: in_set_takeD)

lemma adjacent_ws_py_slice_to: "\<not> adjacent_ws xs \<Longrightarrow> \<not> adjacent_ws (py_slice_to xs k)"
  by (simp add: py_slice_to_def adjacent_ws_take)

lemma clean_transcript_text_cases:
  "clean_transcript_text text max_chars = []
   \<or> clean_transcript_text text max_chars = clean_passes (strip text)
       \<and> int (length (clean_passes (strip text))) \<le> max_chars
   \<or> clean_transcript_text text max_chars
         = py_slice_to (clean_passes (strip text)) max_chars @ truncation_marker
       \<and> int (length (clean_passes (strip text))) > max_chars"
  by (simp add: clean_transcript_text_def Let_def)

lemma clean_transcript_text_spaces:
  assumes "c \<in> set (clean_transcript_text text max_chars)" and "is_space c"
  shows "c = CHR '' ''"
proof -
  let ?v = "clean_passes (strip text)"
  from assms(1) clean_transcript_text_cases [of "text" max_chars]
  have "c \<in> set ?v \<or> c \<in> set (py_slice_to ?v max_chars) \<or> c \<in> set truncation_marker"
    by auto
  with set_py_slice_to [of ?v max_chars]
  have "c \<in> set ?v \<or> c \<in> set truncation_marker"
    by blast
  with assms(2) show ?thesis
    using clean_passes_spaces truncation_marker_spaces by blast
qed

lemma newline_is_space: "is_space (CHR 0x0A)"
  by (simp add: is_space_def)

lemma clean_transcript_text_no_newline: "CHR 0x0A \<notin> set (clean_transcript_text text max_chars)"
proof
  assume "CHR 0x0A \<in> set (clean_transcript_text text max_chars)"
  from clean_transcript_text_spaces [OF this newline_is_space] show False by simp
qed

lemma split_blank_lines_acc_no_newline:
  "CHR 0x0A \<notin> set s \<Longrightarrow> split_blank_lines_acc acc s = [rev acc @ s]"
  by (induction s arbitrary: acc) auto

lemma split_blank_lines_no_newline: "CHR 0x0A \<notin> set s \<Longrightarrow> split_blank_lines s = [s]"
  by (simp add: split_blank_lines_def split_blank_lines_acc_no_newline)

text \<open>
  C10. The text returned by \<open>clean_transcript_text\<close> has no newline: every whitespace
  character in it is a plain space. The five substitutions leave no two whitespace
  characters in a row, and the result is empty, or that text, or its first
  \<open>max_chars\<close> characters followed by the marker; when nothing is cut the result has
  no two whitespace characters in a row. (When the text is cut, the cut part can end in a
  space, which then stands next to the space that opens the marker.) In every case the
  split at runs of two or more newlines, the paragraph split of the chunker, leaves the
  result in one piece.
\<close>

theorem clean_transcript_text_whitespace:
  "CHR 0x0A \<notin> set (clean_transcript_text text max_chars)
   \<and> (\<forall>c \<in> set (clean_transcript_text text max_chars). is_space c \<longrightarrow> c = CHR '' '')
   \<and> \<not> adjacent_ws (clean_passes (strip text))
   \<and> (clean_transcript_text text max_chars = []
        \<or> clean_transcript_text text max_chars = clean_passes (strip text)
        \<or> clean_transcript_text text max_chars
             = py_slice_to (clean_passes (strip text)) max_chars @ truncation_marker)
   \<and> (int (length (clean_passes (strip text))) \<le> max_chars
        \<longrightarrow> \<not> adjacent_ws (clean_transcript_text text max_chars))
   \<and> split_blank_lines (clean_transcript_text text max_chars)
        = [clean_transcript_text text max_chars]"
proof (intro conjI)
  show "CHR 0x0A \<notin> set (clean_transcript_text text max_chars)"
    by (rule clean_transcript_text_no_newline)
  then show "split_blank_lines (clean_transcript_text text max_chars)
        = [clean_transcript_text text max_chars]"
    by (rule split_blank_lines_no_newline)
  show "\<forall>c \<in> set (clean_transcript_text text max_chars). is_space c \<longrightarrow> c = CHR '' ''"
    using clean_transcript_text_spaces by blast
  show "\<not> adjacent_ws (clean_passes (strip text))"
    by (rule clean_passes_not_adjacent)
  show "clean_transcript_text text max_chars = []
        \<or> clean_transcript_text text max_chars = clean_passes (strip text)
        \<or> clean_transcript_text text max_chars
             = py_slice_to (clean_passes (strip text)) max_chars @ truncation_marker"
    using clean_transcript_text_cases [of "text" max_chars] by blast
  show "int (length (clean_passes (strip text))) \<le> max_chars
        \<longrightarrow> \<not> adjacent_ws (clean_transcript_text text max_chars)"
    using clean_transcript_text_cases [of "text" max_chars]
      clean_passes_not_adjacent [of "strip text"]
    by auto
qed

lemma clean_timestamped_transcript:
  "clean_transcript_text timestamped_transcript 120000 = ''Welcome to the course next topic''"
  by code_simp

theorem clean_transcript_text_whitespace_witness:
  "clean_transcript_text timestamped_transcript 120000 = ''Welcome to the course next topic''
   \<and> CHR '' '' \<in> set (clean_transcript_text timestamped_transcript 120000)
   \<and> is_space (CHR '' '')
   \<and> int (length (clean_passes (strip timestamped_transcript))) \<le> 120000
   \<and> \<not> adjacent_ws (clean_transcript_text timestamped_transcript 120000)
   \<and> split_blank_lines (clean_transcript_text timestamped_transcript 120000)
        = [''Welcome to the course next topic'']"
proof -
  have v: "clean_passes (strip timestamped_transcript) = ''Welcome to the course next topic''"
    by code_simp
  have len: "int (length (clean_passes (strip timestamped_transcript))) \<le> 120000"
    by (simp add: v)
  from clean_transcript_text_whitespace [of timestamped_transcript 120000] len
  show ?thesis
    by (simp add: clean_timestamped_transcript is_space_def)
qed

subsection \<open>A cut that ends in a space\<close>

lemma re_sub_no_match:
  assumes "\<And>p c t. c \<in> A \<Longrightarrow> m p (c # t) = None" and "set s \<subseteq> A"
  shows "re_sub m repl 0 prev s = s"
  using assms(2)
  by (induction s arbitrary: prev) (simp_all add: assms(1))

lemma clean_passes_plain:
  assumes "set s \<subseteq> set ''ab ''"
  shows "clean_passes s = normalize_ws s"
proof -
  have t: "re_sub timestamp_len '' '' 0 None s = s"
    using assms by (intro re_sub_no_match [where A = "set ''ab ''"])
      (auto simp: timestamp_len_def is_digit_def)
  have b: "re_sub (aside_len (CHR ''['') (CHR '']'')) '' '' 0 None s = s"
    using assms by (intro re_sub_no_match [where A = "set ''ab ''"]) (auto simp: aside_len_def)
  have p: "re_sub (aside_len (CHR ''('') (CHR '')'')) '' '' 0 None s = s"
    using assms by (intro re_sub_no_match [where A = "set ''ab ''"]) (auto simp: aside_len_def)
  have l: "re_sub speaker_label_len [] 0 None s = s"
    using assms by (intro re_sub_no_match [where A = "set ''ab ''"])
      (auto simp: speaker_label_len_def is_upper_def)
  show ?thesis
    by (simp add: clean_passes_def t b p l)
qed

lemma sub_ws_runs_replicate:
  "\<not> is_space c \<Longrightarrow>
   sub_ws_runs b (replicate (Suc n) c @ t) = replicate (Suc n) c @ sub_ws_runs False t"
  by (induction n arbitrary: b) simp_all

lemma a_not_space: "\<not> is_space (CHR ''a'')"
  by (simp add: is_space_def)

lemma normalize_long_transcript:
  "normalize_ws (long_transcript (Suc n)) = long_transcript (Suc n)"
proof -
  have c: "collapse_ws (long_transcript (Suc n)) = long_transcript (Suc n)"
    unfolding collapse_ws_def long_transcript_def
    by (simp only: sub_ws_runs_replicate [OF a_not_space]) (simp add: is_space_def)
  have r: "rstrip (long_transcript (Suc n)) = long_transcript (Suc n)"
    by (simp add: rstrip_def long_transcript_def is_space_def)
  have l: "lstrip (long_transcript (Suc n)) = long_transcript (Suc n)"
    by (simp add: lstrip_def long_transcript_def is_space_def)
  show ?thesis
    by (simp add: normalize_ws_def strip_def c r l)
qed

lemma strip_long_transcript: "strip (long_transcript (Suc n)) = long_transcript (Suc n)"
  by (simp add: strip_def rstrip_def lstrip_def long_transcript_def is_space_def)

lemma clean_long_transcript:
  "clean_transcript_text (long_transcript (Suc n)) (int n + 2)
     = replicate (Suc n) (CHR ''a'') @ '' '' @ truncation_marker"
proof -
  have plain: "set (long_transcript (Suc n)) \<subseteq> set ''ab ''"
    by (auto simp: long_transcript_def)
  have v: "clean_passes (long_transcript (Suc n)) = long_transcript (Suc n)"
    by (simp add: clean_passes_plain [OF plain] normalize_long_transcript)
  have ne: "long_transcript (Suc n) \<noteq> []"
    by (simp add: long_transcript_def)
  have len: "int (length (long_transcript (Suc n))) > int n + 2"
    by (simp add: long_transcript_def)
  have cut: "py_slice_to (long_transcript (Suc n)) (int n + 2) = replicate (Suc n) (CHR ''a'') @ '' ''"
    by (simp add: py_slice_to_def long_transcript_def nat_add_distrib)
  show ?thesis
    using ne len
    by (simp add: clean_transcript_text_def strip_long_transcript v cut Let_def)
qed

lemma adjacent_ws_cut_marker:
  "adjacent_ws (replicate (Suc n) (CHR ''a'') @ '' '' @ truncation_marker)"
  by (simp add: adjacent_ws_append truncation_marker_def is_space_def del: replicate_Suc)

theorem clean_transcript_text_double_space:
  "clean_transcript_text ''ab cd'' 3 = ''ab  [Transcript truncated]''
   \<and> adjacent_ws (clean_transcript_text ''ab cd'' 3)
   \<and> adjacent_ws (clean_transcript_text (long_transcript 119999) 120000)"
proof -
  have small: "clean_transcript_text ''ab cd'' 3 = ''ab  [Transcript truncated]''"
    by code_simp
  have "adjacent_ws (clean_transcript_text (long_transcript (Suc 119998)) (int 119998 + 2))"
    by (simp only: clean_long_transcript adjacent_ws_cut_marker)
  then have big: "adjacent_ws (clean_transcript_text (long_transcript 119999) 120000)"
    by simp
  show ?thesis
    using big by (simp add: small is_space_def)
qed

section \<open>Chunks\<close>

subsection \<open>Stripping\<close>

lemma rstrip_last: "rstrip x \<noteq> [] \<Longrightarrow> \<not> is_space (last (rstrip x))"
  unfolding rstrip_def by (simp add: hd_dropWhile last_rev)

lemma lstrip_hd: "lstrip x \<noteq> [] \<Longrightarrow> \<not> is_space (hd (lstrip x))"
  unfolding lstrip_def using hd_dropWhile by blast

lemma lstrip_last: "lstrip x \<noteq> [] \<Longrightarrow> last (lstrip x) = last x"
  unfolding lstrip_def by (metis dropWhile_eq_Nil_conv dropWhile_last)

lemma lstrip_id: "x = [] \<or> \<not> is_space (hd x) \<Longrightarrow> lstrip x = x"
  unfolding lstrip_def by (metis dropWhile_eq_self_iff)

lemma rstrip_id: "x = [] \<or> \<not> is_space (last x) \<Longrightarrow> rstrip x = x"
  unfolding rstrip_def by (metis dropWhile_eq_self_iff hd_rev rev.simps(1) rev_rev_ident)

lemma strip_hd_last:
  assumes "strip x \<noteq> []"
  shows "\<not> is_space (hd (strip x))" and "\<not> is_space (last (strip x))"
proof -
  from assms have l: "lstrip (rstrip x) \<noteq> []" by (simp add: strip_def)
  then show "\<not> is_space (hd (strip x))"
    by (simp add: strip_def lstrip_hd)
  from l have "rstrip x \<noteq> []" by (auto simp: lstrip_def)
  then have "\<not> is_space (last (rstrip x))" by (rule rstrip_last)
  with l show "\<not> is_space (last (strip x))"
    by (simp add: strip_def lstrip_last)
qed

lemma strip_id: "x = [] \<or> (\<not> is_space (hd x) \<and> \<not> is_space (last x)) \<Longrightarrow> strip x = x"
  by (auto simp: strip_def rstrip_id lstrip_id)

lemma strip_idem: "strip (strip x) = strip x"
  using strip_hd_last [of x] by (intro strip_id) auto



subsection \<open>The loop\<close>







subsection \<open>A cleaned transcript is one paragraph\<close>

lemma normalize_ws_stripped: "strip (normalize_ws s) = normalize_ws s"
  by (simp add: normalize_ws_def strip_idem)






subsection \<open>What the chunker returns\<close>





subsection \<open>Where the reconstruction fails\<close>






section \<open>Retrieval\<close>

lemma py_slice_to_nonneg: "0 \<le> k \<Longrightarrow> py_slice_to xs k = take (nat k) xs"
  by (simp add: py_slice_to_def)

lemma rank_chunks_snd: "snd ` set (rank_chunks score chunks) \<subseteq> set chunks"
  by (auto simp: rank_chunks_def)

lemma rank_chunks_positive:
  "(s, c) \<in> set (rank_chunks score chunks) \<Longrightarrow> score c > 0 \<and> content_tokens c \<noteq> [] \<and> c \<in> set chunks"
  by (auto simp: rank_chunks_def)

lemma rank_chunks_empty:
  "rank_chunks score chunks = [] \<longleftrightarrow> (\<forall>c \<in> set chunks. content_tokens c = [] \<or> score c \<le> 0)"
  by (auto simp: rank_chunks_def filter_empty_conv)

lemma select_top_by_fallback:
  assumes "chunks \<noteq> []" and "0 \<le> top_k"
    and "content_tokens query = [] \<or> (\<forall>c \<in> set chunks. content_tokens c = [] \<or> score c \<le> 0)"
  shows "select_top_by score query chunks top_k = take (nat top_k) chunks"
  using assms rank_chunks_empty [of score chunks]
  by (auto simp: select_top_by_def Let_def py_slice_to_nonneg)

lemma select_top_by_ranked:
  assumes "chunks \<noteq> []" and "0 \<le> top_k" and "content_tokens query \<noteq> []"
    and "\<not> (\<forall>c \<in> set chunks. content_tokens c = [] \<or> score c \<le> 0)"
  shows "select_top_by score query chunks top_k
           = map snd (take (nat top_k) (sort_key (\<lambda>item. - fst item) (rank_chunks score chunks)))"
proof -
  from assms(4) have "rank_chunks score chunks \<noteq> []"
    by (simp only: rank_chunks_empty not_False_eq_True)
  with assms(1-3) show ?thesis
    by (simp add: select_top_by_def Let_def py_slice_to_nonneg)
qed

lemma select_top_by_length:
  assumes "0 \<le> top_k"
  shows "int (length (select_top_by score query chunks top_k)) \<le> top_k"
  using assms by (auto simp: select_top_by_def Let_def py_slice_to_nonneg)

lemma select_top_by_ranked_members:
  assumes "c \<in> set (map snd (take n (sort_key (\<lambda>item. - fst item) (rank_chunks score chunks))))"
  shows "score c > 0 \<and> content_tokens c \<noteq> [] \<and> c \<in> set chunks"
proof -
  from assms obtain s where "(s, c) \<in> set (take n (sort_key (\<lambda>item. - fst item) (rank_chunks score chunks)))"
    by auto
  then have "(s, c) \<in> set (sort_key (\<lambda>item. - fst item) (rank_chunks score chunks))"
    by (rule in_set_takeD)
  then have "(s, c) \<in> set (rank_chunks score chunks)"
    by simp
  then show ?thesis
    by (rule rank_chunks_positive)
qed

lemma select_top_by_subset:
  assumes "0 \<le> top_k"
  shows "set (select_top_by score query chunks top_k) \<subseteq> set chunks"
proof
  fix c
  assume c: "c \<in> set (select_top_by score query chunks top_k)"
  then have ne: "chunks \<noteq> []"
    by (auto simp: select_top_by_def)
  show "c \<in> set chunks"
  proof (cases "content_tokens query = [] \<or> (\<forall>c \<in> set chunks. content_tokens c = [] \<or> score c \<le> 0)")
    case True
    from c select_top_by_fallback [OF ne assms True] show ?thesis
      by (auto dest: in_set_takeD)
  next
    case False
    then have "select_top_by score query chunks top_k
           = map snd (take (nat top_k) (sort_key (\<lambda>item. - fst item) (rank_chunks score chunks)))"
      using select_top_by_ranked [OF ne assms] by blast
    with c select_top_by_ranked_members show ?thesis
      by metis
  qed
qed

subsection \<open>Rounding\<close>

text \<open>
  The score is the floating-point one. For a chunk of 21100 characters that shares three
  tokens with the query, the exact value of \<open>3 - 0.00015 * 20000\<close> is 0, but the double
  nearest to 0.00015 is below it, the product is rounded to the double just below 3, and
  the score is \<open>2 ^ - 51\<close>, which is positive: the chunk is ranked.
\<close>

lemma float_round_examples:
  "float_round (2 ^ 53 + 1) = 2 ^ 53 \<and> float_round (2 ^ 53 + 3) = 2 ^ 53 + 4
   \<and> float_round (- (2 ^ 53 + 3)) = - (2 ^ 53 + 4)
   \<and> float_round 12345678901234567890123 = 12345678901234567741440"
  by code_simp

lemma float_score_rounding:
  "float_score 3 21100 = 2 ^ 14 \<and> length_penalty 21100 = 3 * 2 ^ 65 - 2 ^ 14
   \<and> float_score 3 21101 < 0 \<and> float_score 0 1100 = 0 \<and> float_score 2 1100 = 2 * 2 ^ 65"
  by code_simp

subsection \<open>The selection\<close>

text \<open>
  C5. For a non-empty list of chunks and a count \<open>top_k\<close> that is not negative,
  \<open>select_top_chunks_for_query\<close> returns at most \<open>top_k\<close> chunks, all of them from
  the list. When the query has no token left after stop-word removal, or no chunk has both
  a content token and a positive (floating-point) score, it returns the first
  \<open>min(top_k, len(chunks))\<close> chunks in their original order. Otherwise every chunk it
  returns has a positive score: chunks scoring 0 or less are not ranked.
\<close>

theorem select_top_chunks_contract:
  fixes query :: string and chunks :: "string list" and top_k :: int
  assumes "chunks \<noteq> []" and "0 \<le> top_k"
  defines "score \<equiv> chunk_score (content_tokens query)"
  defines "result \<equiv> select_top_chunks_for_query query chunks top_k"
  shows "int (length result) \<le> top_k
       \<and> set result \<subseteq> set chunks
       \<and> (content_tokens query = [] \<or> (\<forall>c \<in> set chunks. content_tokens c = [] \<or> score c \<le> 0)
            \<longrightarrow> result = take (min (nat top_k) (length chunks)) chunks
              \<and> length result = min (nat top_k) (length chunks))
       \<and> (content_tokens query \<noteq> [] \<and> (\<exists>c \<in> set chunks. content_tokens c \<noteq> [] \<and> score c > 0)
            \<longrightarrow> (\<forall>c \<in> set result. score c > 0))"
proof (intro conjI impI)
  have r: "result = select_top_by score query chunks top_k"
    by (simp add: result_def score_def select_top_chunks_for_query_def)
  show "int (length result) \<le> top_k"
    unfolding r using assms(2) by (rule select_top_by_length)
  show "set result \<subseteq> set chunks"
    unfolding r using assms(2) by (rule select_top_by_subset)
  {
    assume "content_tokens query = [] \<or> (\<forall>c \<in> set chunks. content_tokens c = [] \<or> score c \<le> 0)"
    from select_top_by_fallback [OF assms(1,2) this]
    have t: "result = take (nat top_k) chunks"
      by (simp add: r)
    then show "result = take (min (nat top_k) (length chunks)) chunks"
      by (simp add: min_def)
    from t show "length result = min (nat top_k) (length chunks)"
      by (simp add: min_def)
  }
  {
    assume a: "content_tokens query \<noteq> [] \<and> (\<exists>c \<in> set chunks. content_tokens c \<noteq> [] \<and> score c > 0)"
    then have "\<not> (\<forall>c \<in> set chunks. content_tokens c = [] \<or> score c \<le> 0)"
      by auto
    with a select_top_by_ranked [OF assms(1,2)]
    have "result = map snd (take (nat top_k) (sort_key (\<lambda>item. - fst item) (rank_chunks score chunks)))"
      by (simp add: r)
    then show "\<forall>c \<in> set result. score c > 0"
      using select_top_by_ranked_members [of _ "nat top_k" score chunks] by blast
  }
qed

lemma demo_ranked:
  "select_top_chunks_for_query ''neural networks learn'' demo_chunks 2
     = [''neural networks learn weights'', ''networks of roads'']"
  by code_simp

lemma demo_fallback:
  "select_top_chunks_for_query ''what about the'' demo_chunks 2
     = [''cooking pasta recipes'', ''neural networks learn weights'']"
  by code_simp

theorem select_top_chunks_contract_witness:
  "demo_chunks \<noteq> [] \<and> (0::int) \<le> 2
   \<and> content_tokens ''what about the'' = []
   \<and> select_top_chunks_for_query ''what about the'' demo_chunks 2 = take 2 demo_chunks
   \<and> content_tokens ''neural networks learn'' \<noteq> []
   \<and> content_tokens ''networks of roads'' \<noteq> []
   \<and> chunk_score (content_tokens ''neural networks learn'') ''networks of roads'' > 0
   \<and> select_top_chunks_for_query ''neural networks learn'' demo_chunks 2
        = [''neural networks learn weights'', ''networks of roads'']
   \<and> chunk_score (content_tokens ''neural networks learn'') ''neural networks learn weights'' > 0"
proof -
  have ne: "demo_chunks \<noteq> []" by (simp add: demo_chunks_def)
  have k: "(0::int) \<le> 2" by simp
  have q0: "content_tokens ''what about the'' = []" by code_simp
  have q1: "content_tokens ''neural networks learn'' \<noteq> []" by code_simp
  have c1: "content_tokens ''networks of roads'' \<noteq> []" by code_simp
  have s1: "chunk_score (content_tokens ''neural networks learn'') ''networks of roads'' > 0"
    by code_simp
  have m: "''networks of roads'' \<in> set demo_chunks" by (simp add: demo_chunks_def)
  from select_top_chunks_contract [OF ne k, of "''what about the''"] q0
  have f: "select_top_chunks_for_query ''what about the'' demo_chunks 2 = take 2 demo_chunks"
    by (simp add: demo_chunks_def)
  from select_top_chunks_contract [OF ne k, of "''neural networks learn''"] q1 c1 s1 m
  have "\<forall>c \<in> set (select_top_chunks_for_query ''neural networks learn'' demo_chunks 2).
          chunk_score (content_tokens ''neural networks learn'') c > 0"
    by blast
  then have p: "chunk_score (content_tokens ''neural networks learn'') ''neural networks learn weights'' > 0"
    by (simp add: demo_ranked)
  show ?thesis
    using ne q0 q1 c1 s1 f p demo_ranked by simp
qed


subsection \<open>A negative count\<close>

text \<open>
  A negative \<open>top_k\<close> makes the slices count from the end of the list: with
  \<open>top_k = -1\<close> all chunks but the last are returned, which is more than \<open>top_k\<close>
  chunks and not the first \<open>min(top_k, len(chunks))\<close>.
\<close>

theorem select_top_chunks_negative_count:
  "demo_chunks \<noteq> []
   \<and> content_tokens ''what about the'' = []
   \<and> select_top_chunks_for_query ''what about the'' demo_chunks (- 1)
        = [''cooking pasta recipes'', ''neural networks learn weights'', ''networks of roads'']
   \<and> \<not> int (length (select_top_chunks_for_query ''what about the'' demo_chunks (- 1))) \<le> - 1
   \<and> select_top_chunks_for_query ''neural networks learn'' demo_chunks (- 1)
        = [''neural networks learn weights'']
   \<and> \<not> int (length (select_top_chunks_for_query ''neural networks learn'' demo_chunks (- 1))) \<le> - 1"
proof -
  have a: "select_top_chunks_for_query ''what about the'' demo_chunks (- 1)
        = [''cooking pasta recipes'', ''neural networks learn weights'', ''networks of roads'']"
    by code_simp
  have b: "select_top_chunks_for_query ''neural networks learn'' demo_chunks (- 1)
        = [''neural networks learn weights'']"
    by code_simp
  have c: "content_tokens ''what about the'' = []"
    by code_simp
  show ?thesis
    by (simp add: a b c) (simp add: demo_chunks_def)
qed
section \<open>Validated summaries\<close>

subsection \<open>De-duplication\<close>

lemma dedupe_seen_distinct:
  "distinct (map str_lower (dedupe_seen seen items))
   \<and> set (map str_lower (dedupe_seen seen items)) \<inter> set seen = {}"
proof (induction items arbitrary: seen)
  case Nil
  then show ?case by simp
next
  case (Cons item items)
  from Cons.IH [of seen] Cons.IH [of "str_lower (normalize_ws item) # seen"]
  show ?case by (auto simp: Let_def)
qed

lemma dedupe_strings_distinct: "distinct (map str_lower (dedupe_strings items))"
  by (simp add: dedupe_strings_def dedupe_seen_distinct)

lemma dedupe_seen_normalized:
  "x \<in> set (dedupe_seen seen items) \<Longrightarrow> x \<noteq> [] \<and> (\<exists>item \<in> set items. x = normalize_ws item)"
  by (induction items arbitrary: seen) (auto simp: Let_def split: if_splits)

lemma dedupe_strings_stripped: "x \<in> set (dedupe_strings items) \<Longrightarrow> strip x = x"
  using dedupe_seen_normalized [of x "[]" items]
  by (auto simp: dedupe_strings_def normalize_ws_stripped)

lemma dedupe_seen_length: "length (dedupe_seen seen items) \<le> length items"
  by (induction items arbitrary: seen) (auto simp: Let_def le_SucI)

lemma dedupe_strings_length: "length (dedupe_strings items) \<le> length items"
  by (simp add: dedupe_strings_def dedupe_seen_length)

subsection \<open>Normalising twice\<close>

lemma sub_ws_runs_id:
  assumes "\<forall>c \<in> set s. is_space c \<longrightarrow> c = CHR '' ''" and "\<not> adjacent_ws s"
    and "b \<longrightarrow> s = [] \<or> \<not> is_space (hd s)"
  shows "sub_ws_runs b s = s"
  using assms
proof (induction s arbitrary: b)
  case Nil
  then show ?case by simp
next
  case (Cons c cs)
  have tl: "\<forall>c \<in> set cs. is_space c \<longrightarrow> c = CHR '' ''" "\<not> adjacent_ws cs"
    using Cons.prems by (auto simp: adjacent_ws_Cons)
  show ?case
  proof (cases "is_space c")
    case True
    then have "\<not> b" and "c = CHR '' ''" and "cs = [] \<or> \<not> is_space (hd cs)"
      using Cons.prems by (auto simp: adjacent_ws_Cons)
    then show ?thesis
      using True Cons.IH [of True] tl by simp
  next
    case False
    then show ?thesis
      using Cons.IH [of False] tl by simp
  qed
qed

lemma normalize_ws_idem: "normalize_ws (normalize_ws s) = normalize_ws s"
proof -
  have "collapse_ws (normalize_ws s) = normalize_ws s"
    unfolding collapse_ws_def
    by (rule sub_ws_runs_id) (auto simp: normalize_ws_not_adjacent normalize_ws_spaces)
  then show ?thesis
    by (simp add: normalize_ws_def [of "normalize_ws s"] normalize_ws_stripped)
qed

lemma dedupe_seen_id:
  assumes "\<forall>y \<in> set ys. normalize_ws y = y \<and> y \<noteq> []"
    and "distinct (map str_lower ys)" and "set (map str_lower ys) \<inter> set seen = {}"
  shows "dedupe_seen seen ys = ys"
  using assms
proof (induction ys arbitrary: seen)
  case Nil
  then show ?case by simp
next
  case (Cons y ys)
  have "dedupe_seen (str_lower y # seen) ys = ys"
    using Cons.prems by (intro Cons.IH) auto
  then show ?case
    using Cons.prems by (auto simp: Let_def)
qed

lemma dedupe_strings_normalized:
  assumes "x \<in> set (dedupe_strings items)"
  shows "normalize_ws x = x \<and> x \<noteq> []"
proof -
  from assms dedupe_seen_normalized [of x "[]" items]
  obtain item where "x = normalize_ws item" and "x \<noteq> []"
    by (auto simp: dedupe_strings_def)
  then show ?thesis
    by (simp add: normalize_ws_idem)
qed

lemma dedupe_strings_take_idem:
  "dedupe_strings (take n (dedupe_strings items)) = take n (dedupe_strings items)"
proof -
  let ?ys = "take n (dedupe_strings items)"
  have "\<forall>y \<in> set ?ys. normalize_ws y = y \<and> y \<noteq> []"
    using dedupe_strings_normalized by (blast dest: in_set_takeD)
  moreover have "distinct (map str_lower ?ys)"
    using dedupe_strings_distinct [of items]
    by (simp add: take_map [symmetric] distinct_take del: take_map)
  ultimately show ?thesis
    unfolding dedupe_strings_def [of ?ys] by (intro dedupe_seen_id) simp_all
qed

subsection \<open>Shortening\<close>

lemma before_last_space_length: "length (before_last_space s) \<le> length s"
proof -
  have "length (tl (dropWhile (\<lambda>c. c \<noteq> CHR '' '') (rev s))) \<le> length s"
    using length_dropWhile_le [of "\<lambda>c. c \<noteq> CHR '' ''" "rev s"] by simp
  then show ?thesis
    by (simp add: before_last_space_def)
qed

lemma shorten_length:
  assumes "0 \<le> max_chars"
  shows "int (length (shorten text max_chars)) \<le> max_chars + 3"
proof (cases "int (length (normalize_ws text)) \<le> max_chars")
  case True
  then show ?thesis by (simp add: shorten_def Let_def)
next
  case False
  have "length (before_last_space (py_slice_to (normalize_ws text) max_chars))
          \<le> length (py_slice_to (normalize_ws text) max_chars)"
    by (rule before_last_space_length)
  also have "\<dots> \<le> nat max_chars"
    using assms by (simp add: py_slice_to_def)
  finally show ?thesis
    using False assms by (simp add: shorten_def Let_def)
qed

subsection \<open>Padding\<close>

lemma pad_items_eq:
  "pad_items label min_items xs = xs @ map (item_filler label) [length xs + 1 ..< min_items + 1]"
proof (induction label min_items xs rule: pad_items.induct)
  case (1 label min_items normalized)
  show ?case
  proof (cases "length normalized < min_items")
    case True
    then have "[length normalized + 1 ..< min_items + 1]
                 = (length normalized + 1) # [length normalized + 2 ..< min_items + 1]"
      by (simp add: upt_rec [of "Suc (length normalized)"])
    with True "1.IH" show ?thesis
      by (simp add: pad_items.simps [of label min_items normalized])
  next
    case False
    then show ?thesis
      by (simp add: pad_items.simps [of label min_items normalized])
  qed
qed

lemma pad_paragraphs_length: "length (pad_paragraphs concepts_clean paragraphs) \<ge> 3"
proof (induction concepts_clean paragraphs rule: pad_paragraphs.induct)
  case (1 concepts_clean paragraphs)
  then show ?case
    by (cases "length paragraphs < 3")
       (simp_all add: pad_paragraphs.simps [of concepts_clean paragraphs])
qed

lemma show_nat_digit: "n < 10 \<Longrightarrow> length (show_nat n) = 1"
  by (simp add: show_nat.simps [of n])

lemma item_filler_length:
  "n < 10 \<Longrightarrow> length (item_filler label n) = length label + 57"
  by (simp add: item_filler_def show_nat_digit)

subsection \<open>The fields\<close>

lemma ensure_item_range_eq:
  "ensure_item_range items label =
     (let kept = take 8 (map (\<lambda>item. shorten item 180)
                           (filter (\<lambda>item. length item > 8) (dedupe_strings items)))
      in kept @ map (item_filler label) [length kept + 1 ..< 5])"
proof -
  have "filter (\<lambda>item. length (strip item) > 8) (dedupe_strings items)
          = filter (\<lambda>item. length item > 8) (dedupe_strings items)"
    by (rule filter_cong) (simp_all add: dedupe_strings_stripped)
  then show ?thesis
    by (simp add: ensure_item_range_def Let_def pad_items_eq)
qed

lemma ensure_item_range_contract:
  assumes "length label \<le> 126"
  shows "field_contract label items (ensure_item_range items label)"
proof -
  define kept where "kept = take 8 (map (\<lambda>item. shorten item 180)
                           (filter (\<lambda>item. length item > 8) (dedupe_strings items)))"
  have r: "ensure_item_range items label = kept @ map (item_filler label) [length kept + 1 ..< 5]"
    by (simp add: ensure_item_range_eq kept_def Let_def)
  have k8: "length kept \<le> 8"
    by (simp add: kept_def)
  have short: "length item \<le> 183" if "item \<in> set kept" for item
  proof -
    from that obtain x where "item = shorten x 180"
      by (auto simp: kept_def dest!: in_set_takeD)
    with shorten_length [of 180 x] show ?thesis by simp
  qed
  have fill: "length item \<le> 183" if "item \<in> set (map (item_filler label) [length kept + 1 ..< 5])"
    for item
  proof -
    from that obtain n where "n < 5" and "item = item_filler label n"
      by auto
    with assms show ?thesis by (simp add: item_filler_length)
  qed
  have "4 \<le> length (ensure_item_range items label)" "length (ensure_item_range items label) \<le> 8"
    using k8 by (simp_all add: r)
  moreover have "\<forall>item \<in> set (ensure_item_range items label). length item \<le> 183"
    using short fill by (auto simp: r simp del: set_map map_eq_conv)
  ultimately show ?thesis
    unfolding field_contract_def
    by (simp add: Let_def dedupe_strings_distinct r kept_def [symmetric])
qed

subsection \<open>The overview\<close>

lemma build_three_paragraph_overview_length:
  "length (build_three_paragraph_overview source_text concepts) \<le> 3"
  by (simp add: build_three_paragraph_overview_def template_paragraphs_def Let_def
      split: prod.splits)

lemma append_missing_length:
  "length overview \<le> 3 \<Longrightarrow> length (append_missing generated overview) \<le> 3"
  by (induction generated arbitrary: overview) auto

lemma overview_loop_length:
  "overview_loop source_text concepts overview = Some result \<Longrightarrow>
   length overview \<le> 3 \<longrightarrow> length result = 3"
  by (rule overview_loop.raw_induct
        [where P = "\<lambda>source_text concepts overview result.
                      length overview \<le> 3 \<longrightarrow> length result = 3"])
     (auto simp: append_missing_length split: if_splits)

text \<open>
  A round that appends nothing leaves the loop where it was: when the generated
  paragraphs are all present already and there are fewer than three, the loop never ends.
\<close>

lemma overview_loop_progress:
  "overview_loop source_text concepts overview = Some result \<Longrightarrow>
   \<not> (length overview < 3
      \<and> append_missing (build_three_paragraph_overview source_text concepts) overview = overview)"
  by (rule overview_loop.raw_induct
        [where P = "\<lambda>source_text concepts overview result.
                      \<not> (length overview < 3
                         \<and> append_missing (build_three_paragraph_overview source_text concepts)
                               overview = overview)"])
     (auto split: if_splits)

lemma overview_loop_stuck:
  assumes "length overview < 3"
    and "append_missing (build_three_paragraph_overview source_text concepts) overview = overview"
  shows "overview_loop source_text concepts overview = None"
proof (cases "overview_loop source_text concepts overview")
  case None
  then show ?thesis .
next
  case (Some result)
  from overview_loop_progress [OF Some] assms show ?thesis by simp
qed

lemma overview_loop_done:
  "length overview \<ge> 3 \<Longrightarrow> overview_loop source_text concepts overview = Some overview"
  by (simp add: overview_loop.simps [of source_text concepts overview])

lemma validate_structured_summary_fields:
  assumes "validate_structured_summary summary source_text = Some validated"
  shows "key_definitions validated = ensure_item_range (key_definitions summary) ''Definition''"
    and "core_concepts validated = ensure_item_range (core_concepts summary) ''Concept''"
    and "important_examples validated = ensure_item_range (important_examples summary) ''Example''"
    and "exam_revision_points validated
           = ensure_item_range (exam_revision_points summary) ''Revision Point''"
  using assms by (auto simp: validate_structured_summary_def Let_def)

lemma validate_structured_summary_overview:
  assumes "validate_structured_summary summary source_text = Some validated"
  shows "length (overview_paragraphs validated) = 3"
proof -
  define concepts where "concepts = ensure_item_range (core_concepts summary) ''Concept''"
  define overview where "overview = dedupe_strings
    (if length (dedupe_strings (overview_paragraphs summary)) < 3
     then build_three_paragraph_overview source_text concepts
     else take 3 (dedupe_strings (overview_paragraphs summary)))"
  from assms have l: "overview_loop source_text concepts overview = Some (overview_paragraphs validated)"
    by (auto simp: validate_structured_summary_def Let_def overview_def concepts_def
        split: if_splits)
  have "length overview \<le> 3"
    unfolding overview_def
    using build_three_paragraph_overview_length [of source_text concepts]
      dedupe_strings_length [of "build_three_paragraph_overview source_text concepts"]
      dedupe_strings_length [of "take 3 (dedupe_strings (overview_paragraphs summary))"]
    by (auto split: if_splits)
  with overview_loop_length [OF l] show ?thesis by simp
qed

lemma validate_structured_summary_returns:
  assumes "length (dedupe_strings (overview_paragraphs summary)) \<ge> 3"
  shows "map_option overview_paragraphs (validate_structured_summary summary source_text)
           = Some (take 3 (dedupe_strings (overview_paragraphs summary)))"
proof -
  let ?ov = "take 3 (dedupe_strings (overview_paragraphs summary))"
  have len: "length ?ov = 3" and ge: "\<not> length (dedupe_strings (overview_paragraphs summary)) < 3"
    "\<not> min (length (dedupe_strings (overview_paragraphs summary))) 3 < 3"
    using assms by simp_all
  have loop: "overview_loop source_text (ensure_item_range (core_concepts summary) ''Concept'') ?ov
               = Some ?ov"
    using len by (intro overview_loop_done) simp
  show ?thesis
    unfolding validate_structured_summary_def Let_def
    by (simp add: ge dedupe_strings_take_idem loop)
qed

subsection \<open>What validation guarantees\<close>

text \<open>
  Whenever \<open>validate_structured_summary\<close> returns, its result has exactly 3 overview
  paragraphs and, in each of the four bulleted fields, between 4 and 8 items of at most 183
  characters, made from the candidate's items as \<open>field_contract\<close> says. It does return
  when the candidate has three overview paragraphs that differ without regard to case, and
  then keeps the first three.
\<close>

lemma validate_structured_summary_partial:
  "(validate_structured_summary summary source_text = Some validated \<longrightarrow>
      length (overview_paragraphs validated) = 3
      \<and> field_contract ''Definition'' (key_definitions summary) (key_definitions validated)
      \<and> field_contract ''Concept'' (core_concepts summary) (core_concepts validated)
      \<and> field_contract ''Example'' (important_examples summary) (important_examples validated)
      \<and> field_contract ''Revision Point'' (exam_revision_points summary)
            (exam_revision_points validated))
   \<and> (length (dedupe_strings (overview_paragraphs summary)) \<ge> 3 \<longrightarrow>
        map_option overview_paragraphs (validate_structured_summary summary source_text)
          = Some (take 3 (dedupe_strings (overview_paragraphs summary))))"
proof (intro conjI impI)
  assume v: "validate_structured_summary summary source_text = Some validated"
  show "length (overview_paragraphs validated) = 3"
    using v by (rule validate_structured_summary_overview)
  show "field_contract ''Definition'' (key_definitions summary) (key_definitions validated)"
    by (simp add: validate_structured_summary_fields [OF v] ensure_item_range_contract)
  show "field_contract ''Concept'' (core_concepts summary) (core_concepts validated)"
    by (simp add: validate_structured_summary_fields [OF v] ensure_item_range_contract)
  show "field_contract ''Example'' (important_examples summary) (important_examples validated)"
    by (simp add: validate_structured_summary_fields [OF v] ensure_item_range_contract)
  show "field_contract ''Revision Point'' (exam_revision_points summary)
          (exam_revision_points validated)"
    by (simp add: validate_structured_summary_fields [OF v] ensure_item_range_contract)
next
  assume "length (dedupe_strings (overview_paragraphs summary)) \<ge> 3"
  then show "map_option overview_paragraphs (validate_structured_summary summary source_text)
          = Some (take 3 (dedupe_strings (overview_paragraphs summary)))"
    by (rule validate_structured_summary_returns)
qed

lemma validate_sloppy_candidate:
  "validate_structured_summary sloppy_candidate [] = Some sloppy_validated"
proof -
  have o: "take 3 (dedupe_strings (overview_paragraphs sloppy_candidate))
             = overview_paragraphs sloppy_validated"
    by code_simp
  have k: "ensure_item_range (key_definitions sloppy_candidate) ''Definition''
             = key_definitions sloppy_validated"
    by code_simp
  have c: "ensure_item_range (core_concepts sloppy_candidate) ''Concept''
             = core_concepts sloppy_validated"
    by code_simp
  have e: "ensure_item_range (important_examples sloppy_candidate) ''Example''
             = important_examples sloppy_validated"
    by code_simp
  have r: "ensure_item_range (exam_revision_points sloppy_candidate) ''Revision Point''
             = exam_revision_points sloppy_validated"
    by code_simp
  have three: "length (overview_paragraphs sloppy_validated) = 3"
    by (simp add: sloppy_validated_def)
  have d: "dedupe_strings (overview_paragraphs sloppy_validated)
             = overview_paragraphs sloppy_validated"
    using dedupe_strings_take_idem [of 3 "overview_paragraphs sloppy_candidate"]
    by (simp only: o)
  have l: "overview_loop [] (core_concepts sloppy_validated) (overview_paragraphs sloppy_validated)
             = Some (overview_paragraphs sloppy_validated)"
    by (rule overview_loop_done) (simp add: three)
  show ?thesis
    unfolding validate_structured_summary_def Let_def
    by (simp add: o k c e r three d l)
qed

lemma validate_structured_summary_partial_example:
  "validate_structured_summary sloppy_candidate [] = Some sloppy_validated
   \<and> 3 \<le> length (dedupe_strings (overview_paragraphs sloppy_candidate))
   \<and> length (overview_paragraphs sloppy_validated) = 3
   \<and> field_contract ''Example'' (important_examples sloppy_candidate)
        (important_examples sloppy_validated)
   \<and> map_option overview_paragraphs (validate_structured_summary sloppy_candidate [])
        = Some (take 3 (dedupe_strings (overview_paragraphs sloppy_candidate)))"
proof -
  have d: "3 \<le> length (dedupe_strings (overview_paragraphs sloppy_candidate))"
    by code_simp
  from validate_structured_summary_partial [of sloppy_candidate "[]" sloppy_validated]
    validate_sloppy_candidate d
  show ?thesis by blast
qed

subsection \<open>Where validation falls short\<close>

lemma looping_generated:
  "build_three_paragraph_overview looping_source
     (ensure_item_range (core_concepts looping_candidate) ''Concept'')
   = [looping_paragraph, looping_paragraph, looping_third]"
  by code_simp

lemma looping_deduped:
  "dedupe_strings [looping_paragraph, looping_paragraph, looping_third]
     = [looping_paragraph, looping_third]"
  by code_simp

lemma looping_round:
  "append_missing [looping_paragraph, looping_paragraph, looping_third]
     [looping_paragraph, looping_third] = [looping_paragraph, looping_third]"
  by code_simp

lemma validate_looping_candidate:
  "validate_structured_summary looping_candidate looping_source = None"
proof -
  have o: "overview_paragraphs looping_candidate = []"
    by (simp add: looping_candidate_def)
  have e: "dedupe_strings [] = []"
    by (simp add: dedupe_strings_def)
  have "overview_loop looping_source (ensure_item_range (core_concepts looping_candidate) ''Concept'')
          [looping_paragraph, looping_third] = None"
    by (rule overview_loop_stuck) (simp_all add: looping_generated looping_round)
  then show ?thesis
    by (simp add: validate_structured_summary_def Let_def o e looping_generated looping_deduped)
qed

text \<open>
  C1. For every candidate and every source text, \<open>validate_structured_summary\<close> is to
  return a summary with exactly 3 overview paragraphs whose four bulleted fields hold no
  two items equal without regard to case, each item of at most 180 characters. The code
  does not: for \<open>sloppy_candidate\<close> it returns a summary whose key definitions hold the
  candidate's item ``Definition 2: ...'' and the same text again as a filler, and whose
  first core concept has 183 characters; for \<open>looping_candidate\<close> and
  \<open>looping_source\<close> the regenerated overview has two equal paragraphs, the loop that
  fills the overview up to three adds nothing, and the call never returns.
\<close>

theorem validate_structured_summary_falls_short:
  "validate_structured_summary sloppy_candidate [] = Some sloppy_validated
   \<and> \<not> distinct (map str_lower (key_definitions sloppy_validated))
   \<and> length (hd (core_concepts sloppy_validated)) = 183
   \<and> validate_structured_summary looping_candidate looping_source = None"
proof -
  have "\<not> distinct (map str_lower (key_definitions sloppy_validated))"
    by code_simp
  moreover have "length (hd (core_concepts sloppy_validated)) = 183"
    by (simp add: sloppy_validated_def)
  ultimately show ?thesis
    by (simp add: validate_sloppy_candidate validate_looping_candidate)
qed

section \<open>Offline questions\<close>














section \<open>The multi-pass protocol\<close>

lemma and_then_returned: "m s = (Inr a, s') \<Longrightarrow> and_then m f s = f a s'"
  by (simp add: and_then_def)

lemma and_then_raised: "m s = (Inl e, s') \<Longrightarrow> and_then m f s = (Inl e, s')"
  by (simp add: and_then_def)

text \<open>A chunk whose data is not an object adds nothing, and the loop goes on.\<close>

lemma chunk_notes_loop_drops:
  assumes "ask (ChunkPrompt chunk index total_chunks) 2 s = (Inr chunk_data, s')"
    and "\<not> is_object chunk_data"
  shows "chunk_notes_loop ask total_chunks index (chunk # rest) chunk_notes s
           = chunk_notes_loop ask total_chunks (index + 1) rest chunk_notes s'"
  using assms by (simp add: and_then_returned)

text \<open>A chunk whose request raises (no JSON even after the retry) ends the loop with the exception.\<close>

lemma chunk_notes_loop_raises:
  assumes "ask (ChunkPrompt chunk index total_chunks) 2 s = (Inl e, s')"
  shows "chunk_notes_loop ask total_chunks index (chunk # rest) chunk_notes s = (Inl e, s')"
  using assms by (simp add: and_then_raised)

text \<open>
  When the loop ends without a note, the cloud adapter sends the single-shot prompt for the
  cleaned transcript; the local-network adapter sends the reduce prompt for no notes.
\<close>

lemma gemini_no_notes_single_shot:
  assumes "split_into_chunks (clean_transcript_text transcript_text 120000) 2500 240 10 = chunks"
    and "chunks \<noteq> []"
    and "chunk_notes_loop ask (length chunks) 1 chunks [] s = (Inr [], s')"
  shows "GeminiService_multi_pass_summary ask transcript_text s
           = and_then (ask (SummaryPrompt (clean_transcript_text transcript_text 120000)) 2)
               (\<lambda>fallback. returns (if is_object fallback then fallback else JObject [])) s'"
  using assms by (simp add: GeminiService_multi_pass_summary_def Let_def and_then_returned)

lemma ollama_no_notes_reduce:
  assumes "split_into_chunks (clean_transcript_text transcript_text 120000) 2400 200 8 = chunks"
    and "chunks \<noteq> []"
    and "chunk_notes_loop ask (length chunks) 1 chunks [] s = (Inr [], s')"
  shows "OllamaService_summarize_data ask transcript_text s
           = and_then (reduce_synthesize_validate ask (JObject [])
                         (clean_transcript_text transcript_text 120000) [])
               (\<lambda>final_data.
                  if is_object final_data then returns final_data
                  else raises (Exception
                         ''Could not parse structured summary from Ollama response.'')) s'"
  using assms by (simp add: OllamaService_summarize_data_def Let_def and_then_returned)

text \<open>
  C8, at a failing input. The transcript is one chunk and the model answers the chunk
  prompt with the JSON array \<^verbatim>\<open>[]\<close>, which is dropped. The local-network adapter
  then sends the reduce, synthesis and validation prompts for an empty note set and never
  the single-shot prompt; the cloud adapter sends the single-shot prompt. And when the
  answer to a chunk holds no JSON at all, also after the retry, the local-network adapter
  raises instead of dropping the chunk.
\<close>

theorem ollama_proceeds_without_notes:
  "OllamaService_summarize_data
       (generate_json json_loads_brackets (OllamaService_generate True array_model))
       short_lecture []
     = (Inr (JObject []),
        [ChunkPrompt short_lecture 1 1, ReducePrompt [],
         SynthesisPrompt (JObject []) short_lecture,
         ValidationPrompt (JObject []) (JObject [])])
   \<and> GeminiService_multi_pass_summary
       (generate_json json_loads_brackets (GeminiService_generate array_model))
       short_lecture []
     = (Inr (JObject []), [ChunkPrompt short_lecture 1 1, SummaryPrompt short_lecture])
   \<and> OllamaService_summarize_data
       (generate_json json_loads_brackets (OllamaService_generate True prose_model))
       short_lecture []
     = (Inl (Exception ''JSONDecodeError''),
        [ChunkPrompt short_lecture 1 1, RetryPrompt (ChunkPrompt short_lecture 1 1)])"
  by code_simp

end
